theory Spec2Isabelle
  imports Main
begin

section \<open>Data model (types.ts)\<close>

text \<open>
  The interfaces of \<^verbatim>\<open>types.ts\<close> as records, its enum and string unions as
  datatypes. An optional field \<^verbatim>\<open>f?: T\<close> is a \<open>T option\<close>. Two interfaces that
  share a field name get a suffix on the later one (\<open>id_item\<close>, \<open>id_result\<close>,
  \<open>id_log\<close>), since the field names of a record are constants.
  Strings are byte strings (UTF-8); the only string operations the code applies to
  them are concatenation, equality, \<^verbatim>\<open>includes\<close> with an ASCII needle and
  \<^verbatim>\<open>trim\<close>.
\<close>

datatype Language = VI | EN

record ItemDetails =
  analysis :: string
  steps :: "string list"
  risks :: string

record SuggestionItem =
  id_item :: string
  title :: string
  description :: string
  details :: "ItemDetails option"

record SearchResult =
  id_result :: string
  query :: string
  timestamp :: int
  suggestions :: "SuggestionItem list"
  roastCommentary :: string
  sources :: "string list"
  promptSuggestion :: "string option"
  bestModel :: "string option"

datatype LogType = Info | Error | Warning | System

record LogEntry =
  id_log :: string
  timestamp_log :: int
  type_log :: LogType
  message :: string
  details_log :: "string option"

datatype PageView = PageHome | PageDocs | PageHistory | PageLogs | PageReport

record RawSuggestion =
  title_raw :: string
  description_raw :: string

record GeminiResponseSchema =
  suggestions_resp :: "RawSuggestion list"
  roast :: string
  sources_resp :: "string list"
  promptSuggestion_resp :: string
  bestModel_resp :: string

datatype AttachmentType = File | Link

record Attachment =
  type_att :: AttachmentType
  content :: string
  mimeType :: "string option"
  name_att :: "string option"

text \<open>
  What a \<^verbatim>\<open>catch (e: any)\<close> reads of the thrown value: \<^verbatim>\<open>e.message\<close> and
  \<^verbatim>\<open>e.status\<close>, either of which may be undefined.
\<close>

record JsError =
  message_err :: "string option"
  status_err :: "int option"

text \<open>A file picked in the file input: the fields \<^verbatim>\<open>handleFileSelect\<close> reads.\<close>

record FileObj =
  name_file :: string
  type_file :: string
  size_file :: nat

section \<open>JavaScript helpers\<close>

text \<open>\<^verbatim>\<open>hay.includes(needle)\<close>: the needle occurs as a contiguous substring.\<close>

fun js_includes :: "string \<Rightarrow> string \<Rightarrow> bool" where
  "js_includes [] needle = (needle = [])"
| "js_includes (c # cs) needle =
     (take (length needle) (c # cs) = needle \<or> js_includes cs needle)"

text \<open>
  \<^verbatim>\<open>s.trim()\<close> removes the white space and line terminators of ECMAScript from both
  ends: U+0009 to U+000D, U+0020, U+00A0, U+1680, U+2000 to U+200A, U+2028, U+2029,
  U+202F, U+205F, U+3000 and U+FEFF, here as their UTF-8 byte sequences.
\<close>

definition js_whitespace :: "string list" where
  "js_whitespace =
     [[CHR 0x09], [CHR 0x0A], [CHR 0x0B], [CHR 0x0C], [CHR 0x0D], [CHR 0x20],
      [CHR 0xC2, CHR 0xA0], [CHR 0xE1, CHR 0x9A, CHR 0x80],
      [CHR 0xE2, CHR 0x80, CHR 0x80], [CHR 0xE2, CHR 0x80, CHR 0x81],
      [CHR 0xE2, CHR 0x80, CHR 0x82], [CHR 0xE2, CHR 0x80, CHR 0x83],
      [CHR 0xE2, CHR 0x80, CHR 0x84], [CHR 0xE2, CHR 0x80, CHR 0x85],
      [CHR 0xE2, CHR 0x80, CHR 0x86], [CHR 0xE2, CHR 0x80, CHR 0x87],
      [CHR 0xE2, CHR 0x80, CHR 0x88], [CHR 0xE2, CHR 0x80, CHR 0x89],
      [CHR 0xE2, CHR 0x80, CHR 0x8A], [CHR 0xE2, CHR 0x80, CHR 0xA8],
      [CHR 0xE2, CHR 0x80, CHR 0xA9], [CHR 0xE2, CHR 0x80, CHR 0xAF],
      [CHR 0xE2, CHR 0x81, CHR 0x9F], [CHR 0xE3, CHR 0x80, CHR 0x80],
      [CHR 0xEF, CHR 0xBB, CHR 0xBF]]"

definition leadingSpace :: "string list \<Rightarrow> string \<Rightarrow> string option" where
  "leadingSpace seqs s = find (\<lambda>q. q \<noteq> [] \<and> take (length q) s = q) seqs"

function dropSpace :: "string list \<Rightarrow> string \<Rightarrow> string" where
  "dropSpace seqs s =
     (case leadingSpace seqs s of
        None \<Rightarrow> s
      | Some q \<Rightarrow> dropSpace seqs (drop (length q) s))"
  by pat_completeness auto
termination
proof (relation "measure (\<lambda>(seqs, s). length s)")
  show "wf (measure (\<lambda>(seqs, s). length s))" by simp
next
  fix seqs :: "string list" and s q :: string
  assume "leadingSpace seqs s = Some q"
  then have q: "q \<noteq> []" and t: "take (length q) s = q"
    by (auto simp: leadingSpace_def find_Some_iff)
  from q have "0 < length q" by simp
  moreover have "length q \<le> length s"
  proof -
    from t have "length (take (length q) s) = length q" by simp
    then show ?thesis by simp
  qed
  ultimately have "length s - length q < length s" by arith
  then show "((seqs, drop (length q) s), (seqs, s)) \<in> measure (\<lambda>(seqs, s). length s)"
    by simp
qed

declare dropSpace.simps [simp del]

definition js_trim :: "string \<Rightarrow> string" where
  "js_trim s = rev (dropSpace (map rev js_whitespace) (rev (dropSpace js_whitespace s)))"

text \<open>A number in a template literal \<^verbatim>\<open>`${n}`\<close>, for a natural number: decimal.\<close>

definition digit_char :: "nat \<Rightarrow> char" where
  "digit_char d = char_of (48 + d)"

function show_nat :: "nat \<Rightarrow> string" where
  "show_nat n = (if n < 10 then [digit_char n] else show_nat (n div 10) @ [digit_char (n mod 10)])"
  by pat_completeness auto
termination
  by (relation "measure (\<lambda>n. n)") auto

declare show_nat.simps [simp del]

section \<open>The environment and the state\<close>

text \<open>
  Effects the code observes, in the order it performs them: a detail request
  \<^verbatim>\<open>analyzeSpecificItem(title, context, lang)\<close>, a broad request
  \<^verbatim>\<open>analyzeIssue(query, lang, attachment, context)\<close>, and \<^verbatim>\<open>await delay(ms)\<close>.
\<close>

datatype Effect =
    DetailRequest string string Language
  | BroadRequest string Language "Attachment option" string
  | Delay nat

fun isRequest :: "Effect \<Rightarrow> bool" where
  "isRequest (DetailRequest t q l) = True"
| "isRequest (BroadRequest q l a c) = True"
| "isRequest (Delay ms) = False"

text \<open>
  The external collaborators, as parameters. \<open>randomUUID E k\<close> is what the \<open>k\<close>-th
  call of \<^verbatim>\<open>crypto.randomUUID()\<close> returns and \<open>dateNow E k\<close> what the \<open>k\<close>-th call
  of \<^verbatim>\<open>Date.now()\<close> returns. The two functions of the Gemini service either return
  the parsed response or throw; which, is decided by the remote service, so the
  \<open>n\<close>-th request of a session (counting both kinds) gets the outcome the
  environment gives for \<open>n\<close> and the arguments. \<open>readBase64 E f\<close> is what
  \<^verbatim>\<open>reader.result.split(',')[1]\<close> evaluates to once the FileReader has read \<open>f\<close>.
\<close>

record Env =
  randomUUID :: "nat \<Rightarrow> string"
  dateNow :: "nat \<Rightarrow> int"
  analyzeSpecificItem :: "nat \<Rightarrow> string \<Rightarrow> string \<Rightarrow> Language \<Rightarrow> JsError + ItemDetails"
  analyzeIssue ::
    "nat \<Rightarrow> string \<Rightarrow> Language \<Rightarrow> Attachment option \<Rightarrow> string \<Rightarrow> JsError + GeminiResponseSchema"
  readBase64 :: "FileObj \<Rightarrow> string"

text \<open>
  The state of the application: the \<^verbatim>\<open>useState\<close> cells of \<^verbatim>\<open>App\<close>
  (\<open>currentPage\<close> to \<open>restoredItem\<close>), of the mounted \<^verbatim>\<open>ReportPage\<close>
  (\<open>isAutoGenerating\<close>, \<open>genProgress\<close> as the pair (current, total),
  \<open>statusMessage\<close>) and of the mounted \<^verbatim>\<open>Home\<close> (\<open>query_home\<close> to \<open>linkUrl\<close>),
  then the effects performed so far and the number of UUIDs and clock readings taken.
  The cells that only drive the display (\<^verbatim>\<open>sidebarOpen\<close>, \<^verbatim>\<open>showUpdateToast\<close>,
  \<^verbatim>\<open>copied\<close>, \<^verbatim>\<open>isExportingPdf\<close>) are left out.

  \<^verbatim>\<open>currentResultRef.current\<close> of the ReportPage is assigned \<open>currentResult\<close> by an
  effect after every render in which it changed (lines 31-34); the drain loop reads it
  only after an \<^verbatim>\<open>await\<close>, so in a mounted page it reads \<open>currentResult\<close>.

  A handler is a function from the state at its call to the state at its end: its
  awaits complete before anything else runs. What a handler holds in its closure (the
  batch of a drain run, the current result of a click or a search) is an argument of the
  function or is read from the state at the call.
\<close>

record World =
  currentPage :: PageView
  language :: Language
  logs :: "LogEntry list"
  history :: "SearchResult list"
  currentResult :: "SearchResult option"
  restoredItem :: "SearchResult option"
  isAutoGenerating :: bool
  genProgress :: "nat \<times> nat"
  statusMessage :: string
  query_home :: string
  isLoading :: bool
  error_home :: "string option"
  selectedItem :: "SuggestionItem option"
  loadingItemId :: "string option"
  isModalOpen :: bool
  attachment :: "Attachment option"
  showAttachMenu :: bool
  showLinkInput :: bool
  linkUrl :: string
  trace :: "Effect list"
  uuidCount :: nat
  clockCount :: nat

definition requestCount :: "World \<Rightarrow> nat" where
  "requestCount w = length (filter isRequest (trace w))"

definition perform :: "Effect \<Rightarrow> World \<Rightarrow> World" where
  "perform ev w = w\<lparr>trace := trace w @ [ev]\<rparr>"

section \<open>App: logs, history, current result\<close>

text \<open>\<^verbatim>\<open>addLog\<close>: \<^verbatim>\<open>setLogs(prev => [...prev, entry])\<close>.\<close>

definition addLog :: "LogEntry \<Rightarrow> World \<Rightarrow> World" where
  "addLog entry w = w\<lparr>logs := logs w @ [entry]\<rparr>"

text \<open>
  Every call site builds the entry as
  \<^verbatim>\<open>{id: crypto.randomUUID(), timestamp: Date.now(), type, message, details}\<close>.
\<close>

definition logEvent :: "Env \<Rightarrow> LogType \<Rightarrow> string \<Rightarrow> string option \<Rightarrow> World \<Rightarrow> World" where
  "logEvent E ty msg det w =
     addLog \<lparr>id_log = randomUUID E (uuidCount w), timestamp_log = dateNow E (clockCount w),
             type_log = ty, message = msg, details_log = det\<rparr>
       (w\<lparr>uuidCount := uuidCount w + 1, clockCount := clockCount w + 1\<rparr>)"

text \<open>\<^verbatim>\<open>prev.findIndex(p => p.id === id)\<close>, with \<open>None\<close> for -1.\<close>

fun findIndex :: "string \<Rightarrow> SearchResult list \<Rightarrow> nat option" where
  "findIndex i [] = None"
| "findIndex i (p # ps) =
     (if id_result p = i then Some 0
      else (case findIndex i ps of None \<Rightarrow> None | Some k \<Rightarrow> Some (Suc k)))"

text \<open>The updater that \<^verbatim>\<open>addToHistory\<close> passes to \<^verbatim>\<open>setHistory\<close>.\<close>

definition upsert :: "SearchResult \<Rightarrow> SearchResult list \<Rightarrow> SearchResult list" where
  "upsert result prev =
     (case findIndex (id_result result) prev of
        Some exists \<Rightarrow> prev[exists := result]
      | None \<Rightarrow> prev @ [result])"

definition addToHistory :: "SearchResult \<Rightarrow> World \<Rightarrow> World" where
  "addToHistory result w = w\<lparr>history := upsert result (history w)\<rparr>"

definition setCurrentResult :: "SearchResult option \<Rightarrow> World \<Rightarrow> World" where
  "setCurrentResult r w = w\<lparr>currentResult := r\<rparr>"

definition updateCurrentResult :: "SearchResult \<Rightarrow> World \<Rightarrow> World" where
  "updateCurrentResult result w = addToHistory result (setCurrentResult (Some result) w)"

text \<open>\<^verbatim>\<open>handleRestore\<close> of App.\<close>

definition handleRestore :: "Env \<Rightarrow> SearchResult \<Rightarrow> World \<Rightarrow> World" where
  "handleRestore E item w =
     logEvent E Info ''Restored history item'' (Some (''ID: '' @ id_result item))
       (w\<lparr>restoredItem := Some item, currentResult := Some item, currentPage := PageHome\<rparr>)"

section \<open>ReportPage: the drain loop\<close>

text \<open>
  The patch both detail paths apply (ReportPage line 87, Home lines 749-751):
  \<^verbatim>\<open>suggestions.map(s => s.id === item.id ? { ...s, details } : s)\<close>.
\<close>

definition patchItems :: "string \<Rightarrow> ItemDetails \<Rightarrow> SuggestionItem list \<Rightarrow> SuggestionItem list" where
  "patchItems i d ss = map (\<lambda>s. if id_item s = i then s\<lparr>details := Some d\<rparr> else s) ss"

definition attachDetail :: "SearchResult \<Rightarrow> string \<Rightarrow> ItemDetails \<Rightarrow> SearchResult" where
  "attachDetail doc i d = doc\<lparr>suggestions := patchItems i d (suggestions doc)\<rparr>"

text \<open>
  \<^verbatim>\<open>e.message?.includes('429') || e.message?.includes('quota') || e.status === 429\<close>
\<close>

definition isRateLimit :: "JsError \<Rightarrow> bool" where
  "isRateLimit e =
     ((case message_err e of None \<Rightarrow> False | Some m \<Rightarrow> js_includes m ''429'')
      \<or> (case message_err e of None \<Rightarrow> False | Some m \<Rightarrow> js_includes m ''quota'')
      \<or> status_err e = Some 429)"

definition maxRetries :: nat where
  "maxRetries = 3"

definition setStatusMessage :: "string \<Rightarrow> World \<Rightarrow> World" where
  "setStatusMessage m w = w\<lparr>statusMessage := m\<rparr>"

definition queryContext :: "World \<Rightarrow> string" where
  "queryContext w = (case currentResult w of None \<Rightarrow> [] | Some r \<Rightarrow> query r)"

text \<open>Lines 84-90: the patch of the latest document, published with \<^verbatim>\<open>updateResult\<close>.\<close>

definition patchLatest :: "SuggestionItem \<Rightarrow> ItemDetails \<Rightarrow> World \<Rightarrow> World" where
  "patchLatest item d w =
     (case currentResult w of
        None \<Rightarrow> w
      | Some cur \<Rightarrow> updateCurrentResult (attachDetail cur (id_item item) d) w)"

definition rateLimitMsg :: "nat \<Rightarrow> nat \<Rightarrow> string" where
  "rateLimitMsg waitTime retries =
     ''Rate Limit (429) hit. Cooling down '' @ show_nat (waitTime div 1000) @ ''s... (Retry ''
       @ show_nat retries @ ''/'' @ show_nat maxRetries @ '')''"

text \<open>
  The inner loop, lines 78-122: \<^verbatim>\<open>while (!success && retries < maxRetries)\<close>. A
  successful request sets \<^verbatim>\<open>success\<close> and so leaves the loop; \<^verbatim>\<open>break\<close> leaves
  it too.
\<close>

function whileLoop :: "Env \<Rightarrow> Language \<Rightarrow> SuggestionItem \<Rightarrow> nat \<Rightarrow> World \<Rightarrow> World" where
  "whileLoop E lang item retries w =
     (if retries < maxRetries then
        (case analyzeSpecificItem E (requestCount w) (title item) (queryContext w) lang of
           Inr d \<Rightarrow>
             patchLatest item d (perform (DetailRequest (title item) (queryContext w) lang) w)
         | Inl e \<Rightarrow>
             (if isRateLimit e then
                whileLoop E lang item (retries + 1)
                  (perform (Delay (12000 + (retries + 1) * 2000))
                    (logEvent E Warning
                       (''Quota Exceeded for '' @ [CHR 0x22] @ title item @ [CHR 0x22] @ ''. Pausing...'')
                       (Some (rateLimitMsg (12000 + (retries + 1) * 2000) (retries + 1)))
                      (setStatusMessage (rateLimitMsg (12000 + (retries + 1) * 2000) (retries + 1))
                        (perform (DetailRequest (title item) (queryContext w) lang) w))))
              else
                logEvent E Error (''Failed to generate: '' @ title item) (message_err e)
                  (perform (DetailRequest (title item) (queryContext w) lang) w)))
      else w)"
  by pat_completeness auto
termination
  by (relation "measure (\<lambda>(E, lang, item, retries, w). maxRetries - retries)") auto

declare whileLoop.simps [simp del]

text \<open>
  The outer loop, lines 63-124, over the items from index \<open>i\<close> on; \<open>len\<close> is
  \<^verbatim>\<open>items.length\<close>.
\<close>

function (sequential) forLoop ::
  "Env \<Rightarrow> Language \<Rightarrow> nat \<Rightarrow> nat \<Rightarrow> SuggestionItem list \<Rightarrow> World \<Rightarrow> World" where
  "forLoop E lang len i [] w = w"
| "forLoop E lang len i (item # rest) w =
     forLoop E lang len (i + 1) rest
       ((\<lambda>w'. w'\<lparr>genProgress := (i + 1, snd (genProgress w'))\<rparr>)
         (whileLoop E lang item 0
           (setStatusMessage
              (''Analyzing item '' @ show_nat (i + 1) @ ''/'' @ show_nat len @ '': '' @ [CHR 0x22]
                 @ title item @ [CHR 0x22] @ ''...'')
              (if i > 0 then
                 perform (Delay 4000)
                   (setStatusMessage ''Waiting for rate limit (Cooling down)...'' w)
               else w))))"
  by pat_completeness auto
termination
  by (relation "measure (\<lambda>(E, lang, len, i, items, w). length items)") auto

definition triggerAutoGeneration :: "Env \<Rightarrow> Language \<Rightarrow> SuggestionItem list \<Rightarrow> World \<Rightarrow> World" where
  "triggerAutoGeneration E lang items w =
     (if isAutoGenerating w then w
      else
        logEvent E System ''Report Page: Generation Queue Complete'' None
          ((\<lambda>w'. w'\<lparr>statusMessage := [], isAutoGenerating := False\<rparr>)
            (forLoop E lang (length items) 0 items
              (logEvent E System ''Report Page: Auto-Generation Started''
                 (Some (''Queueing '' @ show_nat (length items) @ '' items with rate limiting...''))
                 (w\<lparr>isAutoGenerating := True, genProgress := (0, length items)\<rparr>)))))"

text \<open>
  The effect of lines 37-45, run on mount and whenever \<open>currentResult\<close> changes: the
  batch it hands to \<^verbatim>\<open>triggerAutoGeneration\<close>, if any.
\<close>

definition missingItems :: "SearchResult \<Rightarrow> SuggestionItem list" where
  "missingItems r = filter (\<lambda>s. details s = None) (suggestions r)"

definition autoGenBatch :: "World \<Rightarrow> SuggestionItem list option" where
  "autoGenBatch w =
     (case currentResult w of
        None \<Rightarrow> None
      | Some r \<Rightarrow>
          (if isAutoGenerating w then None
           else if length (missingItems r) > 0 then Some (missingItems r) else None))"

text \<open>
  One firing of the effect, up to the end of the run it starts, if it starts one. It is
  not the whole of what the page does: the render that ends a run can fire the effect
  again, see \<open>autoGenSettle\<close> below.
\<close>

definition autoGenEffect :: "Env \<Rightarrow> World \<Rightarrow> World" where
  "autoGenEffect E w =
     (case autoGenBatch w of
        None \<Rightarrow> w
      | Some missing \<Rightarrow> triggerAutoGeneration E (language w) missing w)"

text \<open>
  The render that ends a run. Lines 89, 123, 126 and 127 run with nothing awaited between
  them. So when the last request of the run succeeded (and a current document was there
  to patch), the document published on line 89 and the flag cleared on line 127 reach
  the page in one render: \<open>currentResult\<close> has changed and \<open>isAutoGenerating\<close> is
  false there, and the effect of lines 37-45 fires again. When the last thing the run
  awaited was a request that failed, or the delay after a rate-limited failure, the
  document was last published before an \<^verbatim>\<open>await\<close>, in a render where the flag was
  set, and the closing render leaves \<open>currentResult\<close> as it was: the effect does not
  fire. The last effect of the trace and the outcome the environment gave to the last
  request tell the two cases apart.
\<close>

definition publishedAtEnd :: "Env \<Rightarrow> World \<Rightarrow> bool" where
  "publishedAtEnd E w =
     (currentResult w \<noteq> None \<and>
      (case rev (trace w) of
         DetailRequest t q l # earlier \<Rightarrow>
           (case analyzeSpecificItem E (requestCount w - 1) t q l of
              Inr d \<Rightarrow> True
            | Inl e \<Rightarrow> False)
       | _ \<Rightarrow> False))"

text \<open>
  The effect fired in a state, and fired again after every run that ends with a
  published document, until a firing starts no run or a run ends otherwise. A further
  run begins with its first request at once: the wait of line 69 is skipped at index
  0. The result is \<open>None\<close> should the firings never end.
\<close>

partial_function (option) autoGenSettle :: "Env \<Rightarrow> World \<Rightarrow> World option" where
  "autoGenSettle E w =
     (case autoGenBatch w of
        None \<Rightarrow> Some w
      | Some missing \<Rightarrow>
          (if publishedAtEnd E (triggerAutoGeneration E (language w) missing w)
           then autoGenSettle E (triggerAutoGeneration E (language w) missing w)
           else Some (triggerAutoGeneration E (language w) missing w)))"

declare autoGenSettle.simps [code]

text \<open>
  Mounting a \<^verbatim>\<open>ReportPage\<close>: \<^verbatim>\<open>App.renderPage\<close> renders the component only while
  \<open>currentPage\<close> is the report page, so each visit creates a new instance whose cells
  start from their \<^verbatim>\<open>useState\<close> initial values (lines 23-25).
\<close>

definition mountReportPage :: "World \<Rightarrow> World" where
  "mountReportPage w = w\<lparr>isAutoGenerating := False, genProgress := (0, 0), statusMessage := []\<rparr>"

section \<open>Home: search, load more, item click, file selection\<close>

text \<open>
  \<^verbatim>\<open>response.suggestions.map(s => ({id: crypto.randomUUID(), title: s.title,
  description: s.description}))\<close>: the \<open>k\<close>-th new item takes the UUID number
  \<open>u + k\<close>; no \<^verbatim>\<open>details\<close> field is written.
\<close>

definition newSuggestions :: "Env \<Rightarrow> nat \<Rightarrow> RawSuggestion list \<Rightarrow> SuggestionItem list" where
  "newSuggestions E u raw =
     map (\<lambda>(k, s). \<lparr>id_item = randomUUID E (u + k), title = title_raw s,
                      description = description_raw s, details = None\<rparr>)
       (zip [0..<length raw] raw)"

text \<open>Lines 674-681, the load-more document.\<close>

definition appendPage ::
  "SearchResult \<Rightarrow> SuggestionItem list \<Rightarrow> GeminiResponseSchema \<Rightarrow> SearchResult" where
  "appendPage cur new response =
     cur\<lparr>suggestions := suggestions cur @ new,
         roastCommentary := roast response,
         sources := sources cur @ sources_resp response,
         promptSuggestion := Some (promptSuggestion_resp response),
         bestModel := Some (bestModel_resp response)\<rparr>"

text \<open>\<^verbatim>\<open>`${attachment.name}`\<close>: an undefined name prints as \<^verbatim>\<open>undefined\<close>.\<close>

definition attName :: "Attachment \<Rightarrow> string" where
  "attName a = (case name_att a of None \<Rightarrow> ''undefined'' | Some n \<Rightarrow> n)"

text \<open>Lines 685-694, the document of a new search.\<close>

definition createResult ::
  "Env \<Rightarrow> nat \<Rightarrow> nat \<Rightarrow> string \<Rightarrow> Attachment option \<Rightarrow> SuggestionItem list \<Rightarrow>
   GeminiResponseSchema \<Rightarrow> SearchResult" where
  "createResult E u c q att new response =
     \<lparr>id_result = randomUUID E u,
      query = (if q \<noteq> [] then q
               else (case att of Some a \<Rightarrow> ''Analyzed: '' @ attName a | None \<Rightarrow> ''Unknown Query'')),
      timestamp = dateNow E c,
      suggestions = new,
      roastCommentary = roast response,
      sources = sources_resp response,
      promptSuggestion = Some (promptSuggestion_resp response),
      bestModel = Some (bestModel_resp response)\<rparr>"

text \<open>\<^verbatim>\<open>titles.join(", ")\<close>\<close>

fun joinComma :: "string list \<Rightarrow> string" where
  "joinComma [] = []"
| "joinComma [x] = x"
| "joinComma (x # y # ys) = x @ '', '' @ joinComma (y # ys)"

definition searchContext :: "bool \<Rightarrow> World \<Rightarrow> string" where
  "searchContext isLoadMore w =
     (case currentResult w of
        Some cur \<Rightarrow> (if isLoadMore then joinComma (map title (suggestions cur)) else [])
      | None \<Rightarrow> [])"

text \<open>The body of the \<^verbatim>\<open>try\<close> after a response has arrived (lines 667-705).\<close>

definition searchSuccess :: "Env \<Rightarrow> bool \<Rightarrow> GeminiResponseSchema \<Rightarrow> World \<Rightarrow> World" where
  "searchSuccess E isLoadMore response w =
     (let new = newSuggestions E (uuidCount w) (suggestions_resp response);
          w1 = w\<lparr>uuidCount := uuidCount w + length (suggestions_resp response)\<rparr>;
          w2 = (case (if isLoadMore then currentResult w1 else None) of
                  Some cur \<Rightarrow>
                    addToHistory (appendPage cur new response)
                      (setCurrentResult (Some (appendPage cur new response)) w1)
                | None \<Rightarrow>
                    addToHistory
                      (createResult E (uuidCount w1) (clockCount w1) (query_home w1) (attachment w1)
                         new response)
                      (setCurrentResult
                         (Some (createResult E (uuidCount w1) (clockCount w1) (query_home w1)
                                  (attachment w1) new response))
                         (w1\<lparr>uuidCount := uuidCount w1 + 1, clockCount := clockCount w1 + 1\<rparr>)))
      in logEvent E System ''Gemini API Success''
           (Some (''Generated '' @ show_nat (length new) @ '' items'')) w2)"

text \<open>The \<^verbatim>\<open>catch\<close> block (lines 707-715).\<close>

definition searchFailure :: "Env \<Rightarrow> JsError \<Rightarrow> World \<Rightarrow> World" where
  "searchFailure E err w =
     logEvent E Error ''Analysis Failed'' (message_err err)
       (w\<lparr>error_home :=
            Some (case message_err err of
                    None \<Rightarrow> ''Unknown error occurred''
                  | Some m \<Rightarrow> (if m = [] then ''Unknown error occurred'' else m))\<rparr>)"

text \<open>\<^verbatim>\<open>handleSearch(isLoadMore)\<close>, lines 646-719.\<close>

definition handleSearch :: "Env \<Rightarrow> bool \<Rightarrow> World \<Rightarrow> World" where
  "handleSearch E isLoadMore w =
     (if js_trim (query_home w) = [] \<and> attachment w = None then w
      else
        (let w1 = logEvent E Info
                    ((if isLoadMore then ''Loading more for: '' else ''New search: '') @ query_home w)
                    (case attachment w of
                       Some a \<Rightarrow> Some (''With attachment: '' @ attName a)
                     | None \<Rightarrow> None)
                    (w\<lparr>isLoading := True, error_home := None\<rparr>);
             w2 = perform (BroadRequest (query_home w) (language w) (attachment w)
                             (searchContext isLoadMore w)) w1;
             w3 = (case analyzeIssue E (requestCount w1) (query_home w) (language w) (attachment w)
                          (searchContext isLoadMore w) of
                     Inr response \<Rightarrow> searchSuccess E isLoadMore response w2
                   | Inl err \<Rightarrow> searchFailure E err w2)
         in w3\<lparr>isLoading := False\<rparr>))"

definition detailErrorMsg :: "Language \<Rightarrow> string" where
  "detailErrorMsg lang =
     (if lang = VI then
        ''L'' @ [CHR 0xE1, CHR 0xBB, CHR 0x97] @ ''i t'' @ [CHR 0xE1, CHR 0xBA, CHR 0xA3] @ ''i chi ti''
          @ [CHR 0xE1, CHR 0xBA, CHR 0xBF] @ ''t''
      else ''Failed to load details'')"

text \<open>\<^verbatim>\<open>handleItemClick(item)\<close>, lines 721-777.\<close>

definition handleItemClick :: "Env \<Rightarrow> SuggestionItem \<Rightarrow> World \<Rightarrow> World" where
  "handleItemClick E item w =
     (if (case loadingItemId w of Some i \<Rightarrow> i \<noteq> [] | None \<Rightarrow> False) then w
      else if details item \<noteq> None then w\<lparr>selectedItem := Some item, isModalOpen := True\<rparr>
      else
        (let ctx = (case currentResult w of
                      None \<Rightarrow> ''General Issue''
                    | Some cur \<Rightarrow> (if query cur = [] then ''General Issue'' else query cur));
             w1 = logEvent E Info (''Fetching details for item: '' @ title item) None
                    (w\<lparr>loadingItemId := Some (id_item item)\<rparr>);
             w2 = perform (DetailRequest (title item) ctx (language w)) w1;
             w3 = (case analyzeSpecificItem E (requestCount w1) (title item) ctx (language w) of
                     Inr d \<Rightarrow>
                       (case currentResult w of
                          None \<Rightarrow> w2
                        | Some cur \<Rightarrow>
                            (let w4 = addToHistory (attachDetail cur (id_item item) d)
                                        (setCurrentResult (Some (attachDetail cur (id_item item) d)) w2)
                             in (case find (\<lambda>s. id_item s = id_item item)
                                         (suggestions (attachDetail cur (id_item item) d)) of
                                   Some updatedItem \<Rightarrow>
                                     w4\<lparr>selectedItem := Some updatedItem, isModalOpen := True\<rparr>
                                 | None \<Rightarrow> w4)))
                   | Inl e \<Rightarrow>
                       logEvent E Error ''Detail Fetch Failed'' (message_err e)
                         (w2\<lparr>error_home := Some (detailErrorMsg (language w))\<rparr>))
         in w3\<lparr>loadingItemId := None\<rparr>))"

definition fileTooLargeMsg :: "Language \<Rightarrow> string" where
  "fileTooLargeMsg lang =
     (if lang = VI then
        ''File qu'' @ [CHR 0xC3, CHR 0xA1] @ '' l'' @ [CHR 0xE1, CHR 0xBB, CHR 0x9B] @ ''n (>5MB)''
      else ''File too large (>5MB)'')"

text \<open>
  \<^verbatim>\<open>handleFileSelect\<close>, lines 608-632, with \<^verbatim>\<open>e.target.files?.[0]\<close> as the
  argument; the \<^verbatim>\<open>onloadend\<close> callback runs once the reader has read the file.
\<close>

definition handleFileSelect :: "Env \<Rightarrow> FileObj option \<Rightarrow> World \<Rightarrow> World" where
  "handleFileSelect E file w =
     (case file of
        None \<Rightarrow> w
      | Some f \<Rightarrow>
          (if size_file f > 5 * 1024 * 1024 then
             w\<lparr>error_home := Some (fileTooLargeMsg (language w))\<rparr>
           else
             w\<lparr>attachment := Some \<lparr>type_att = File, content = readBase64 E f,
                                     mimeType = Some (type_file f), name_att = Some (name_file f)\<rparr>,
                showAttachMenu := False,
                error_home := None\<rparr>))"

text \<open>The restoration effect of Home, lines 598-605.\<close>

definition restoreEffect :: "World \<Rightarrow> World" where
  "restoreEffect w =
     (case restoredItem w of
        None \<Rightarrow> w
      | Some initialResult \<Rightarrow>
          w\<lparr>query_home := query initialResult, currentResult := Some initialResult,
             attachment := None, restoredItem := None\<rparr>)"

section \<open>Auxiliary definitions for the proofs\<close>

text \<open>No failure of the detail client is classified as rate limited.\<close>

definition noRateLimit :: "Env \<Rightarrow> bool" where
  "noRateLimit E =
     (\<forall>n t q l. case analyzeSpecificItem E n t q l of Inl e \<Rightarrow> \<not> isRateLimit e | Inr d \<Rightarrow> True)"

text \<open>One pass through the body of the inner loop when the failure, if any, is not rate limited.\<close>

definition attemptOnce :: "Env \<Rightarrow> Language \<Rightarrow> SuggestionItem \<Rightarrow> World \<Rightarrow> World" where
  "attemptOnce E lang item w =
     (case analyzeSpecificItem E (requestCount w) (title item) (queryContext w) lang of
        Inr d \<Rightarrow> patchLatest item d (perform (DetailRequest (title item) (queryContext w) lang) w)
      | Inl e \<Rightarrow> logEvent E Error (''Failed to generate: '' @ title item) (message_err e)
                  (perform (DetailRequest (title item) (queryContext w) lang) w))"

text \<open>The state after one rate-limited failure, when the inner loop tests its condition again.\<close>

definition afterRateLimit :: "Env \<Rightarrow> Language \<Rightarrow> SuggestionItem \<Rightarrow> nat \<Rightarrow> World \<Rightarrow> World" where
  "afterRateLimit E lang item retries w =
     perform (Delay (12000 + (retries + 1) * 2000))
       (logEvent E Warning
          (''Quota Exceeded for '' @ [CHR 0x22] @ title item @ [CHR 0x22] @ ''. Pausing...'')
          (Some (rateLimitMsg (12000 + (retries + 1) * 2000) (retries + 1)))
         (setStatusMessage (rateLimitMsg (12000 + (retries + 1) * 2000) (retries + 1))
           (perform (DetailRequest (title item) (queryContext w) lang) w)))"

text \<open>An item is as it was, or it belongs to the batch (by id) and has received details.\<close>

definition touched :: "SuggestionItem list \<Rightarrow> SuggestionItem \<Rightarrow> SuggestionItem \<Rightarrow> bool" where
  "touched items s s' =
     (s' = s \<or> (id_item s \<in> id_item ` set items \<and> (\<exists>d. s' = s\<lparr>details := Some d\<rparr>)))"

text \<open>The head of an iteration of the outer loop (lines 64-76), and the whole iteration.\<close>

definition beforeItem :: "Env \<Rightarrow> Language \<Rightarrow> nat \<Rightarrow> nat \<Rightarrow> SuggestionItem \<Rightarrow> World \<Rightarrow> World" where
  "beforeItem E lang len i item w =
     setStatusMessage
       (''Analyzing item '' @ show_nat (i + 1) @ ''/'' @ show_nat len @ '': '' @ [CHR 0x22]
          @ title item @ [CHR 0x22] @ ''...'')
       (if i > 0 then
          perform (Delay 4000) (setStatusMessage ''Waiting for rate limit (Cooling down)...'' w)
        else w)"

definition iteration :: "Env \<Rightarrow> Language \<Rightarrow> nat \<Rightarrow> nat \<Rightarrow> SuggestionItem \<Rightarrow> World \<Rightarrow> World" where
  "iteration E lang len i item w =
     (whileLoop E lang item 0 (beforeItem E lang len i item w))
       \<lparr>genProgress := (i + 1, snd (genProgress (whileLoop E lang item 0 (beforeItem E lang len i item w))))\<rparr>"

section \<open>Concrete inputs\<close>

definition exDetails :: ItemDetails where
  "exDetails = \<lparr>analysis = ''deep dive'', steps = [''one'', ''two''], risks = ''some''\<rparr>"

definition exItemA :: SuggestionItem where
  "exItemA = \<lparr>id_item = ''a'', title = ''A'', description = ''first'', details = None\<rparr>"

definition exItemB :: SuggestionItem where
  "exItemB = \<lparr>id_item = ''b'', title = ''B'', description = ''second'', details = None\<rparr>"

definition exItemC :: SuggestionItem where
  "exItemC = \<lparr>id_item = ''c'', title = ''C'', description = ''third'', details = None\<rparr>"

definition exItemD :: SuggestionItem where
  "exItemD = \<lparr>id_item = ''d'', title = ''D'', description = ''fourth'', details = None\<rparr>"

definition exDoc :: SearchResult where
  "exDoc = \<lparr>id_result = ''r1'', query = ''q'', timestamp = 1000,
            suggestions = [exItemA, exItemB, exItemC, exItemD],
            roastCommentary = ''old roast'', sources = [''s1''],
            promptSuggestion = Some ''old prompt'', bestModel = Some ''old model''\<rparr>"

definition exDoc2 :: SearchResult where
  "exDoc2 = \<lparr>id_result = ''r2'', query = ''other'', timestamp = 2000,
             suggestions = [], roastCommentary = ''roast 2'', sources = [],
             promptSuggestion = None, bestModel = None\<rparr>"

definition exResponse :: GeminiResponseSchema where
  "exResponse = \<lparr>suggestions_resp = [\<lparr>title_raw = ''N1'', description_raw = ''new one''\<rparr>,
                                       \<lparr>title_raw = ''N2'', description_raw = ''new two''\<rparr>],
                 roast = ''new roast'', sources_resp = [''s2'', ''s3''],
                 promptSuggestion_resp = ''new prompt'', bestModel_resp = ''new model''\<rparr>"

text \<open>
  An environment from the outcome of the \<open>n\<close>-th request, for the detail client and for
  the broad client.
\<close>

definition exEnv ::
  "(nat \<Rightarrow> JsError + ItemDetails) \<Rightarrow> (nat \<Rightarrow> JsError + GeminiResponseSchema) \<Rightarrow> Env" where
  "exEnv detail broad =
     \<lparr>randomUUID = (\<lambda>k. ''uuid-'' @ show_nat k),
      dateNow = (\<lambda>k. 5000 + int k),
      analyzeSpecificItem = (\<lambda>n t q l. detail n),
      analyzeIssue = (\<lambda>n q l a c. broad n),
      readBase64 = (\<lambda>f. ''QUJD'')\<rparr>"

definition exErr429 :: JsError where
  "exErr429 = \<lparr>message_err = Some ''Resource exhausted'', status_err = Some 429\<rparr>"

definition exErr500 :: JsError where
  "exErr500 = \<lparr>message_err = Some ''Internal error'', status_err = Some 500\<rparr>"

definition exEnvOk :: Env where
  "exEnvOk = exEnv (\<lambda>n. Inr exDetails) (\<lambda>n. Inr exResponse)"

definition exEnvFail :: Env where
  "exEnvFail = exEnv (\<lambda>n. Inl exErr500) (\<lambda>n. Inl exErr500)"

text \<open>The second and third requests fail rate limited; the first three do.\<close>

definition exEnv429Twice :: Env where
  "exEnv429Twice =
     exEnv (\<lambda>n. if n = 1 \<or> n = 2 then Inl exErr429 else Inr exDetails) (\<lambda>n. Inr exResponse)"

definition exEnv429Thrice :: Env where
  "exEnv429Thrice = exEnv (\<lambda>n. if n < 3 then Inl exErr429 else Inr exDetails) (\<lambda>n. Inr exResponse)"

text \<open>
  The third request fails with an error that is not rate limited; every request for the
  item titled C does.
\<close>

definition exEnvThirdFails :: Env where
  "exEnvThirdFails = exEnv (\<lambda>n. if n = 2 then Inl exErr500 else Inr exDetails) (\<lambda>n. Inr exResponse)"

definition exEnvItemCFails :: Env where
  "exEnvItemCFails =
     exEnvOk\<lparr>analyzeSpecificItem := (\<lambda>n t q l. if t = ''C'' then Inl exErr500 else Inr exDetails)\<rparr>"

text \<open>A session showing \<open>exDoc\<close>, with the query typed in and nothing in flight.\<close>

definition exWorld :: World where
  "exWorld =
     \<lparr>currentPage = PageHome, language = EN, logs = [], history = [exDoc, exDoc2],
      currentResult = Some exDoc, restoredItem = None,
      isAutoGenerating = False, genProgress = (0, 0), statusMessage = [],
      query_home = ''q'', isLoading = False, error_home = None, selectedItem = None,
      loadingItemId = None, isModalOpen = False, attachment = None, showAttachMenu = False,
      showLinkInput = False, linkUrl = [], trace = [], uuidCount = 0, clockCount = 0\<rparr>"

text \<open>
  The same session on the report page, at the first \<^verbatim>\<open>await\<close> of a drain run over the
  four items of \<open>exDoc\<close>: the flag is set, the start is logged, the request for the
  first item is in flight.
\<close>

definition exRunning :: World where
  "exRunning =
     perform (DetailRequest ''A'' ''q'' EN)
       (beforeItem exEnvOk EN 4 0 exItemA
         (logEvent exEnvOk System ''Report Page: Auto-Generation Started''
            (Some (''Queueing '' @ show_nat 4 @ '' items with rate limiting...''))
            (exWorld\<lparr>currentPage := PageReport, isAutoGenerating := True, genProgress := (0, 4)\<rparr>)))"

text \<open>
  A second answer of the detail client, a client whose first answer it is, and the
  document and session after that answer has been attached to the first item.
\<close>

definition exDetailsOld :: ItemDetails where
  "exDetailsOld = \<lparr>analysis = ''first answer'', steps = [], risks = ''none''\<rparr>"

definition exEnvFirstOld :: Env where
  "exEnvFirstOld = exEnv (\<lambda>n. if n = 0 then Inr exDetailsOld else Inr exDetails) (\<lambda>n. Inr exResponse)"

definition exDocA :: SearchResult where
  "exDocA = exDoc\<lparr>suggestions := [exItemA\<lparr>details := Some exDetailsOld\<rparr>, exItemB, exItemC, exItemD]\<rparr>"

definition exWorldA :: World where
  "exWorldA = exWorld\<lparr>currentResult := Some exDocA, history := [exDocA, exDoc2]\<rparr>"

definition exFileBig :: FileObj where
  "exFileBig = \<lparr>name_file = ''big.pdf'', type_file = ''application/pdf'', size_file = 5242881\<rparr>"

definition exFileFit :: FileObj where
  "exFileFit = \<lparr>name_file = ''fit.pdf'', type_file = ''application/pdf'', size_file = 5242880\<rparr>"

section \<open>Basic facts\<close>

lemmas prim_defs = perform_def setStatusMessage_def logEvent_def addLog_def addToHistory_def
  setCurrentResult_def updateCurrentResult_def

lemmas ex_defs = exDetails_def exItemA_def exItemB_def exItemC_def exItemD_def exDoc_def
  exDoc2_def exResponse_def exEnv_def exErr429_def exErr500_def exEnvOk_def exEnvFail_def
  exWorld_def

lemma js_trim_q: "js_trim ''q'' = ''q''"
  by code_simp

lemma requestCount_perform:
  "requestCount (perform ev w) = requestCount w + (if isRequest ev then 1 else 0)"
  by (simp add: requestCount_def perform_def)

lemma isRateLimit_ex: "isRateLimit exErr429" "\<not> isRateLimit exErr500"
  by (simp_all add: isRateLimit_def exErr429_def exErr500_def)

lemma exWorld_fields:
  "currentResult exWorld = Some exDoc" "\<not> isAutoGenerating exWorld" "trace exWorld = []"
  "requestCount exWorld = 0" "queryContext exWorld = ''q''" "language exWorld = EN"
  "logs exWorld = []" "history exWorld = [exDoc, exDoc2]" "genProgress exWorld = (0, 0)"
  by (simp_all add: exWorld_def requestCount_def queryContext_def exDoc_def)

lemma exDoc_fields:
  "suggestions exDoc = [exItemA, exItemB, exItemC, exItemD]" "query exDoc = ''q''"
  by (simp_all add: exDoc_def)

lemma exItem_fields:
  "title exItemA = ''A''" "title exItemB = ''B''" "title exItemC = ''C''" "title exItemD = ''D''"
  "id_item exItemA = ''a''" "id_item exItemB = ''b''" "id_item exItemC = ''c''" "id_item exItemD = ''d''"
  "details exItemA = None" "details exItemB = None" "details exItemC = None" "details exItemD = None"
  by (simp_all add: ex_defs)

lemma show_nat_small: "show_nat 0 = ''0''" "show_nat 1 = ''1''" "show_nat 4 = ''4''"
  by code_simp+

lemma exDetails_differ: "exDetailsOld \<noteq> exDetails"
  by (simp add: exDetailsOld_def exDetails_def)

lemma exWorldA_fields:
  "currentResult exWorldA = Some exDocA" "\<not> isAutoGenerating exWorldA" "trace exWorldA = []"
  "history exWorldA = [exDocA, exDoc2]"
  by (simp_all add: exWorldA_def exWorld_def)

lemma exDocA_fields:
  "suggestions exDocA = [exItemA\<lparr>details := Some exDetailsOld\<rparr>, exItemB, exItemC, exItemD]"
  by (simp add: exDocA_def)

section \<open>Attaching details when no item matches\<close>

lemma patchItems_no_match:
  "\<forall>s \<in> set ss. id_item s \<noteq> i \<Longrightarrow> patchItems i d ss = ss"
  by (induction ss) (simp_all add: patchItems_def)

text \<open>
  Claim C5. Attaching fetched details by item identity when no item of the document has
  the target id changes nothing: the mapped suggestions are the suggestions, so the
  document that results is the document given. The operation is a total function, so
  no error arises. In the drain loop, where the patch is applied to the current document
  and published, the current document stays as it is, the history receives that same
  document, and nothing is logged or requested.
\<close>

theorem C5_attachDetail_no_match:
  assumes "\<forall>s \<in> set (suggestions doc). id_item s \<noteq> i"
  shows "patchItems i d (suggestions doc) = suggestions doc
         \<and> attachDetail doc i d = doc
         \<and> (currentResult w = Some doc \<and> id_item item = i \<longrightarrow>
              currentResult (patchLatest item d w) = Some doc
              \<and> history (patchLatest item d w) = upsert doc (history w)
              \<and> trace (patchLatest item d w) = trace w
              \<and> logs (patchLatest item d w) = logs w)"
proof -
  have a: "attachDetail doc i d = doc"
    using assms by (simp add: attachDetail_def patchItems_no_match)
  show ?thesis
    using assms a by (auto simp: patchItems_no_match patchLatest_def prim_defs)
qed

theorem C5_witness:
  "patchItems ''zz'' exDetails (suggestions exDoc) = suggestions exDoc
   \<and> attachDetail exDoc ''zz'' exDetails = exDoc
   \<and> currentResult (patchLatest (exItemA\<lparr>id_item := ''zz''\<rparr>) exDetails exWorld) = Some exDoc
   \<and> history (patchLatest (exItemA\<lparr>id_item := ''zz''\<rparr>) exDetails exWorld) = [exDoc, exDoc2]"
proof -
  have n: "\<forall>s \<in> set (suggestions exDoc). id_item s \<noteq> ''zz''"
    by (simp add: ex_defs)
  have c: "currentResult exWorld = Some exDoc \<and> id_item (exItemA\<lparr>id_item := ''zz''\<rparr>) = ''zz''"
    by (simp add: exWorld_def)
  have u: "upsert exDoc (history exWorld) = [exDoc, exDoc2]"
    by (simp add: upsert_def exWorld_def exDoc_def)
  from C5_attachDetail_no_match [OF n, of exDetails exWorld "exItemA\<lparr>id_item := ''zz''\<rparr>"] c u
  show ?thesis by simp
qed

section \<open>History upsert\<close>

lemma findIndex_None: "findIndex i h = None \<longleftrightarrow> i \<notin> id_result ` set h"
  by (induction h) (auto split: option.splits)

lemma findIndex_Some:
  "findIndex i h = Some k \<Longrightarrow>
     k < length h \<and> id_result (h ! k) = i \<and> (\<forall>j < k. id_result (h ! j) \<noteq> i)"
proof (induction h arbitrary: k)
  case Nil
  then show ?case by simp
next
  case (Cons p ps)
  show ?case
  proof (cases "id_result p = i")
    case True
    with Cons.prems show ?thesis by simp
  next
    case False
    with Cons.prems obtain k' where k': "findIndex i ps = Some k'" "k = Suc k'"
      by (auto split: option.splits)
    from Cons.IH [OF k'(1)] False k'(2) show ?thesis
      by (auto simp: nth_Cons split: nat.splits)
  qed
qed

lemma map_id_upsert_present:
  "findIndex (id_result r) h = Some k \<Longrightarrow> map id_result (h[k := r]) = map id_result h"
  by (drule findIndex_Some) (simp add: map_update list_update_same_conv)

lemma upsert_present:
  assumes "id_result r \<in> id_result ` set h"
  shows "\<exists>k < length h. id_result (h ! k) = id_result r \<and> upsert r h = h[k := r]"
proof -
  from assms obtain k where k: "findIndex (id_result r) h = Some k"
    using findIndex_None [of "id_result r" h] by (cases "findIndex (id_result r) h") auto
  from findIndex_Some [OF k] k show ?thesis by (auto simp: upsert_def)
qed

lemma upsert_absent:
  "id_result r \<notin> id_result ` set h \<Longrightarrow> upsert r h = h @ [r]"
  using findIndex_None [of "id_result r" h] by (simp add: upsert_def)

lemma map_id_upsert:
  "map id_result (upsert r h) =
     (if id_result r \<in> id_result ` set h then map id_result h else map id_result h @ [id_result r])"
proof (cases "findIndex (id_result r) h")
  case None
  then show ?thesis using findIndex_None [of "id_result r" h] by (simp add: upsert_def)
next
  case (Some k)
  then have "id_result r \<in> id_result ` set h"
    using findIndex_None [of "id_result r" h] by simp
  with Some map_id_upsert_present [OF Some] show ?thesis by (simp add: upsert_def)
qed

lemma findIndex_append_new:
  "i \<notin> id_result ` set h \<Longrightarrow> id_result r = i \<Longrightarrow> findIndex i (h @ [r]) = Some (length h)"
  by (induction h) auto

lemma findIndex_update_first:
  "k < length h \<Longrightarrow> \<forall>j<k. id_result (h ! j) \<noteq> i \<Longrightarrow> id_result r = i \<Longrightarrow>
     findIndex i (h[k := r]) = Some k"
proof (induction h arbitrary: k)
  case Nil
  then show ?case by simp
next
  case (Cons p ps)
  show ?case
  proof (cases k)
    case 0
    with Cons.prems show ?thesis by simp
  next
    case (Suc k')
    with Cons.prems have "id_result p \<noteq> i" by auto
    moreover have "findIndex i (ps[k' := r]) = Some k'"
      using Cons.prems Suc by (intro Cons.IH) auto
    ultimately show ?thesis using Suc by simp
  qed
qed

lemma upsert_idem: "upsert r (upsert r h) = upsert r h"
proof (cases "findIndex (id_result r) h")
  case None
  then have "id_result r \<notin> id_result ` set h" by (simp add: findIndex_None)
  with None show ?thesis by (simp add: upsert_def findIndex_append_new)
next
  case (Some k)
  from findIndex_Some [OF Some] Some show ?thesis
    by (simp add: upsert_def findIndex_update_first)
qed

text \<open>
  Claim C7. The history upsert is keyed by the document's identity. When the identity is
  already in the history, the entry at its position is replaced in place and the length
  stays the same; when it is new, the document is appended. That is what adding a
  document to the history does to the history. A history with at most one
  entry per identity keeps that property. Upserting the same document twice is the same
  as upserting it once, and a further upsert of any version with an identity just
  upserted leaves the length as it is.
\<close>

theorem C7_upsert:
  "history (addToHistory r w) = upsert r (history w)
   \<and> (id_result r \<in> id_result ` set h \<longrightarrow>
      (\<exists>k < length h. id_result (h ! k) = id_result r \<and> upsert r h = h[k := r])
      \<and> length (upsert r h) = length h)
   \<and> (id_result r \<notin> id_result ` set h \<longrightarrow> upsert r h = h @ [r])
   \<and> (distinct (map id_result h) \<longrightarrow> distinct (map id_result (upsert r h)))
   \<and> upsert r (upsert r h) = upsert r h
   \<and> (id_result r' = id_result r \<longrightarrow> length (upsert r' (upsert r h)) = length (upsert r h))"
proof (intro conjI impI)
  show "history (addToHistory r w) = upsert r (history w)"
    by (simp add: addToHistory_def)
next
  assume a: "id_result r \<in> id_result ` set h"
  from upsert_present [OF a]
  show "\<exists>k < length h. id_result (h ! k) = id_result r \<and> upsert r h = h[k := r]" .
  then show "length (upsert r h) = length h" by auto
next
  assume "id_result r \<notin> id_result ` set h"
  then show "upsert r h = h @ [r]" by (rule upsert_absent)
next
  assume "distinct (map id_result h)"
  then show "distinct (map id_result (upsert r h))" by (simp add: map_id_upsert)
next
  show "upsert r (upsert r h) = upsert r h" by (rule upsert_idem)
next
  assume e: "id_result r' = id_result r"
  have "id_result r \<in> set (map id_result (upsert r h))"
    by (simp only: map_id_upsert) (simp split: if_splits)
  then have "id_result r' \<in> id_result ` set (upsert r h)" using e by simp
  from upsert_present [OF this] show "length (upsert r' (upsert r h)) = length (upsert r h)"
    by auto
qed

theorem C7_witness:
  "upsert (exDoc\<lparr>roastCommentary := ''newer''\<rparr>) [exDoc, exDoc2]
     = [exDoc\<lparr>roastCommentary := ''newer''\<rparr>, exDoc2]
   \<and> length (upsert (exDoc\<lparr>roastCommentary := ''newer''\<rparr>) [exDoc, exDoc2]) = 2
   \<and> upsert exDoc2 [exDoc] = [exDoc, exDoc2]
   \<and> distinct (map id_result (upsert exDoc2 [exDoc]))
   \<and> length (upsert exDoc (upsert (exDoc\<lparr>roastCommentary := ''newer''\<rparr>) [exDoc, exDoc2])) = 2"
proof -
  let ?r = "exDoc\<lparr>roastCommentary := ''newer''\<rparr>"
  have p: "id_result ?r \<in> id_result ` set [exDoc, exDoc2]" by (simp add: ex_defs)
  have a: "id_result exDoc2 \<notin> id_result ` set [exDoc]" by (simp add: ex_defs)
  have d: "distinct (map id_result [exDoc])" by simp
  have e: "id_result exDoc = id_result ?r" by simp
  from C7_upsert [where r = ?r and h = "[exDoc, exDoc2]" and r' = exDoc] p e
  have 1: "\<exists>k < length [exDoc, exDoc2]. id_result ([exDoc, exDoc2] ! k) = id_result ?r
              \<and> upsert ?r [exDoc, exDoc2] = [exDoc, exDoc2][k := ?r]"
    and 2: "length (upsert ?r [exDoc, exDoc2]) = length [exDoc, exDoc2]"
    and 3: "length (upsert exDoc (upsert ?r [exDoc, exDoc2])) = length (upsert ?r [exDoc, exDoc2])"
    by blast+
  from 1 have 4: "upsert ?r [exDoc, exDoc2] = [?r, exDoc2]"
    by (auto simp: numeral_2_eq_2 less_Suc_eq exDoc_def exDoc2_def)
  from C7_upsert [where r = exDoc2 and h = "[exDoc]" and r' = exDoc2] a d
  have 5: "upsert exDoc2 [exDoc] = [exDoc] @ [exDoc2]"
    and 6: "distinct (map id_result (upsert exDoc2 [exDoc]))" by blast+
  from 2 3 4 5 6 show ?thesis by simp
qed

section \<open>The size ceiling of a file attachment\<close>

text \<open>
  Claim C9. A selected file whose size (\<^verbatim>\<open>file.size\<close>, the bytes of the file
  before it is encoded) is more than 5 * 1024 * 1024 is rejected: the only change of the
  state is the error message, so the file is not staged as the attachment and no request
  is issued. A file of at most that size is staged as the attachment, with its content,
  type and name, and the error is cleared; no request is issued either.
\<close>

theorem C9_file_size_ceiling:
  "(size_file f > 5 * 1024 * 1024 \<longrightarrow>
      handleFileSelect E (Some f) w = w\<lparr>error_home := Some (fileTooLargeMsg (language w))\<rparr>
      \<and> attachment (handleFileSelect E (Some f) w) = attachment w
      \<and> trace (handleFileSelect E (Some f) w) = trace w
      \<and> error_home (handleFileSelect E (Some f) w) \<noteq> None)
   \<and> (size_file f \<le> 5 * 1024 * 1024 \<longrightarrow>
      attachment (handleFileSelect E (Some f) w) =
        Some \<lparr>type_att = File, content = readBase64 E f,
               mimeType = Some (type_file f), name_att = Some (name_file f)\<rparr>
      \<and> error_home (handleFileSelect E (Some f) w) = None
      \<and> trace (handleFileSelect E (Some f) w) = trace w)"
  by (simp add: handleFileSelect_def)

theorem C9_witness:
  "handleFileSelect exEnvOk (Some exFileBig) exWorld
     = exWorld\<lparr>error_home := Some ''File too large (>5MB)''\<rparr>
   \<and> attachment (handleFileSelect exEnvOk (Some exFileBig) exWorld) = None
   \<and> trace (handleFileSelect exEnvOk (Some exFileBig) exWorld) = []
   \<and> attachment (handleFileSelect exEnvOk (Some exFileFit) exWorld) =
       Some \<lparr>type_att = File, content = ''QUJD'', mimeType = Some ''application/pdf'',
              name_att = Some ''fit.pdf''\<rparr>"
proof -
  have b: "size_file exFileBig > 5 * 1024 * 1024" by (simp add: exFileBig_def)
  have f: "size_file exFileFit \<le> 5 * 1024 * 1024" by (simp add: exFileFit_def)
  from C9_file_size_ceiling [of exFileBig exEnvOk exWorld] b
  have 1: "handleFileSelect exEnvOk (Some exFileBig) exWorld
             = exWorld\<lparr>error_home := Some (fileTooLargeMsg (language exWorld))\<rparr>"
    and 2: "attachment (handleFileSelect exEnvOk (Some exFileBig) exWorld) = attachment exWorld"
    and 3: "trace (handleFileSelect exEnvOk (Some exFileBig) exWorld) = trace exWorld"
    by blast+
  from C9_file_size_ceiling [of exFileFit exEnvOk exWorld] f
  have 4: "attachment (handleFileSelect exEnvOk (Some exFileFit) exWorld) =
        Some \<lparr>type_att = File, content = readBase64 exEnvOk exFileFit,
               mimeType = Some (type_file exFileFit), name_att = Some (name_file exFileFit)\<rparr>"
    by blast
  have l: "language exWorld = EN" "attachment exWorld = None" "trace exWorld = []"
    by (simp_all add: exWorld_def)
  have r: "readBase64 exEnvOk exFileFit = ''QUJD''" "type_file exFileFit = ''application/pdf''"
     "name_file exFileFit = ''fit.pdf''"
    by (simp_all add: exEnvOk_def exEnv_def exFileFit_def)
  from 1 2 3 4 show ?thesis
    by (simp add: l r fileTooLargeMsg_def)
qed

section \<open>Search and load more\<close>

lemma map_snd_zip_fun:
  "length xs = length ys \<Longrightarrow> map (\<lambda>p. g (snd p)) (zip xs ys) = map g ys"
  by (induction xs ys rule: list_induct2) auto

lemma map_fst_zip_fun:
  "length xs = length ys \<Longrightarrow> map (\<lambda>p. g (fst p)) (zip xs ys) = map g xs"
  by (induction xs ys rule: list_induct2) auto

lemma newSuggestions_props:
  "length (newSuggestions E u raw) = length raw"
  "map title (newSuggestions E u raw) = map title_raw raw"
  "map description (newSuggestions E u raw) = map description_raw raw"
  "map details (newSuggestions E u raw) = replicate (length raw) None"
  by (simp_all add: newSuggestions_def case_prod_beta comp_def map_snd_zip_fun map_replicate_const)

lemma newSuggestions_ids:
  "map id_item (newSuggestions E u raw) = map (\<lambda>k. randomUUID E (u + k)) [0..<length raw]"
  using map_fst_zip_fun [of "[0..<length raw]" raw "\<lambda>k. randomUUID E (u + k)"]
  by (simp add: newSuggestions_def case_prod_beta comp_def)

text \<open>Past the guard of line 647, the handler logs, issues the request and branches on its outcome.\<close>

lemma handleSearch_go:
  assumes "\<not> (js_trim (query_home w) = [] \<and> attachment w = None)"
  shows "handleSearch E b w =
     (case analyzeIssue E (requestCount w) (query_home w) (language w) (attachment w)
             (searchContext b w) of
        Inr response \<Rightarrow> searchSuccess E b response
          (perform (BroadRequest (query_home w) (language w) (attachment w) (searchContext b w))
            (logEvent E Info
               ((if b then ''Loading more for: '' else ''New search: '') @ query_home w)
               (case attachment w of Some a \<Rightarrow> Some (''With attachment: '' @ attName a) | None \<Rightarrow> None)
               (w\<lparr>isLoading := True, error_home := None\<rparr>)))
      | Inl err \<Rightarrow> searchFailure E err
          (perform (BroadRequest (query_home w) (language w) (attachment w) (searchContext b w))
            (logEvent E Info
               ((if b then ''Loading more for: '' else ''New search: '') @ query_home w)
               (case attachment w of Some a \<Rightarrow> Some (''With attachment: '' @ attName a) | None \<Rightarrow> None)
               (w\<lparr>isLoading := True, error_home := None\<rparr>))))\<lparr>isLoading := False\<rparr>"
proof -
  have rc: "requestCount (logEvent E ty m d (w\<lparr>isLoading := True, error_home := None\<rparr>))
              = requestCount w"
    for ty m d by (simp add: requestCount_def prim_defs)
  show ?thesis
    by (simp only: handleSearch_def if_not_P [OF assms] Let_def rc)
qed

lemma handleSearch_success:
  assumes "\<not> (js_trim (query_home w) = [] \<and> attachment w = None)"
      and "analyzeIssue E (requestCount w) (query_home w) (language w) (attachment w)
             (searchContext b w) = Inr resp"
  shows "handleSearch E b w =
     (searchSuccess E b resp
        (perform (BroadRequest (query_home w) (language w) (attachment w) (searchContext b w))
          (logEvent E Info
             ((if b then ''Loading more for: '' else ''New search: '') @ query_home w)
             (case attachment w of Some a \<Rightarrow> Some (''With attachment: '' @ attName a) | None \<Rightarrow> None)
             (w\<lparr>isLoading := True, error_home := None\<rparr>))))\<lparr>isLoading := False\<rparr>"
  using assms(2) by (simp add: handleSearch_go [OF assms(1)])

lemma handleSearch_failure:
  assumes "\<not> (js_trim (query_home w) = [] \<and> attachment w = None)"
      and "analyzeIssue E (requestCount w) (query_home w) (language w) (attachment w)
             (searchContext b w) = Inl err"
  shows "handleSearch E b w =
     w\<lparr>logs := logs w @
          [\<lparr>id_log = randomUUID E (uuidCount w), timestamp_log = dateNow E (clockCount w),
            type_log = Info,
            message = (if b then ''Loading more for: '' else ''New search: '') @ query_home w,
            details_log = (case attachment w of
                             Some a \<Rightarrow> Some (''With attachment: '' @ attName a) | None \<Rightarrow> None)\<rparr>,
           \<lparr>id_log = randomUUID E (uuidCount w + 1), timestamp_log = dateNow E (clockCount w + 1),
            type_log = Error, message = ''Analysis Failed'', details_log = message_err err\<rparr>],
        error_home := Some (case message_err err of
                              None \<Rightarrow> ''Unknown error occurred''
                            | Some m \<Rightarrow> (if m = [] then ''Unknown error occurred'' else m)),
        isLoading := False,
        trace := trace w @ [BroadRequest (query_home w) (language w) (attachment w) (searchContext b w)],
        uuidCount := uuidCount w + 2,
        clockCount := clockCount w + 2\<rparr>"
  using assms(2) by (simp add: handleSearch_go [OF assms(1)] searchFailure_def prim_defs)

text \<open>
  Claim C6. Load more on an existing document, when the broad request succeeds, publishes
  a new version of that document (as the current result and, by upsert, in the history):
  its suggestions are the prior items in their order followed by one new item per
  suggestion of the response, in the response's order, with the response's titles and
  descriptions and no details; its sources are the prior sources followed by the
  response's; its commentary, prompt template and recommended model are the response's;
  identity, query and creation time are kept.
\<close>

theorem C6_load_more_appends:
  assumes "\<not> (js_trim (query_home w) = [] \<and> attachment w = None)"
      and "currentResult w = Some doc"
      and "analyzeIssue E (requestCount w) (query_home w) (language w) (attachment w)
             (searchContext True w) = Inr resp"
  shows "\<exists>new. currentResult (handleSearch E True w) = Some (appendPage doc new resp)
           \<and> history (handleSearch E True w) = upsert (appendPage doc new resp) (history w)
           \<and> suggestions (appendPage doc new resp) = suggestions doc @ new
           \<and> map title new = map title_raw (suggestions_resp resp)
           \<and> map description new = map description_raw (suggestions_resp resp)
           \<and> map details new = replicate (length (suggestions_resp resp)) None
           \<and> sources (appendPage doc new resp) = sources doc @ sources_resp resp
           \<and> roastCommentary (appendPage doc new resp) = roast resp
           \<and> promptSuggestion (appendPage doc new resp) = Some (promptSuggestion_resp resp)
           \<and> bestModel (appendPage doc new resp) = Some (bestModel_resp resp)
           \<and> id_result (appendPage doc new resp) = id_result doc
           \<and> query (appendPage doc new resp) = query doc
           \<and> timestamp (appendPage doc new resp) = timestamp doc"
proof (intro exI [of _ "newSuggestions E (uuidCount w + 1) (suggestions_resp resp)"] conjI)
  show "currentResult (handleSearch E True w) =
          Some (appendPage doc (newSuggestions E (uuidCount w + 1) (suggestions_resp resp)) resp)"
    using assms by (simp add: handleSearch_success searchSuccess_def Let_def prim_defs)
  show "history (handleSearch E True w) =
          upsert (appendPage doc (newSuggestions E (uuidCount w + 1) (suggestions_resp resp)) resp)
            (history w)"
    using assms by (simp add: handleSearch_success searchSuccess_def Let_def prim_defs)
qed (simp_all add: appendPage_def newSuggestions_props)

theorem C6_witness:
  "\<exists>new. currentResult (handleSearch exEnvOk True exWorld) = Some (appendPage exDoc new exResponse)
     \<and> suggestions (appendPage exDoc new exResponse) = [exItemA, exItemB, exItemC, exItemD] @ new
     \<and> map title new = [''N1'', ''N2'']
     \<and> sources (appendPage exDoc new exResponse) = [''s1'', ''s2'', ''s3'']
     \<and> roastCommentary (appendPage exDoc new exResponse) = ''new roast''"
proof -
  have g: "\<not> (js_trim (query_home exWorld) = [] \<and> attachment exWorld = None)"
    by (simp add: exWorld_def js_trim_q)
  have c: "currentResult exWorld = Some exDoc" by (simp add: exWorld_def)
  have o: "analyzeIssue exEnvOk (requestCount exWorld) (query_home exWorld) (language exWorld)
             (attachment exWorld) (searchContext True exWorld) = Inr exResponse"
    by (simp add: exEnvOk_def exEnv_def)
  from C6_load_more_appends [OF g c o] obtain new where
    n: "currentResult (handleSearch exEnvOk True exWorld) = Some (appendPage exDoc new exResponse)"
       "suggestions (appendPage exDoc new exResponse) = suggestions exDoc @ new"
       "map title new = map title_raw (suggestions_resp exResponse)"
       "sources (appendPage exDoc new exResponse) = sources exDoc @ sources_resp exResponse"
       "roastCommentary (appendPage exDoc new exResponse) = roast exResponse"
    by blast
  have v: "suggestions exDoc = [exItemA, exItemB, exItemC, exItemD]" "sources exDoc = [''s1'']"
    "map title_raw (suggestions_resp exResponse) = [''N1'', ''N2'']"
    "sources_resp exResponse = [''s2'', ''s3'']" "roast exResponse = ''new roast''"
    by (simp_all add: exDoc_def exResponse_def)
  from n show ?thesis unfolding v by (intro exI [of _ new]) simp
qed

lemma exWorld_fail_facts:
  "\<not> (js_trim (query_home exWorld) = [] \<and> attachment exWorld = None)"
  "analyzeIssue exEnvFail (requestCount exWorld) (query_home exWorld) (language exWorld)
             (attachment exWorld) (searchContext b exWorld) = Inl exErr500"
  by (simp_all add: exWorld_def js_trim_q exEnvFail_def exEnv_def)

text \<open>
  Claim C10, as stated, has a failed broad request leave one appended log entry as its
  only effect besides the error message. At the session \<open>exWorld\<close> with a failing
  service, the current result and the history are untouched, but the log grows by two
  entries: the handler logs the search before it issues the request (lines 657-663) and
  the failure after it (lines 709-715).
\<close>

theorem C10_counterexample:
  "currentResult (handleSearch exEnvFail False exWorld) = currentResult exWorld
   \<and> history (handleSearch exEnvFail False exWorld) = history exWorld
   \<and> length (logs (handleSearch exEnvFail False exWorld)) = length (logs exWorld) + 2
   \<and> \<not> (\<exists>entry. logs (handleSearch exEnvFail False exWorld) = logs exWorld @ [entry])"
proof -
  note st = handleSearch_go [OF exWorld_fail_facts(1), of exEnvFail False]
  show ?thesis unfolding st exWorld_fail_facts(2)
    by (simp add: searchFailure_def prim_defs)
qed

text \<open>
  Claim C10, amended. When the handler passes its guard and the broad request fails, for
  a new search or for load more, the state after the call is the state before it except
  for: two appended log entries (the info entry written before the request, then the
  error entry), the error message (the error's message, or a fixed text when it has
  none), the loading flag, which ends false, and the bookkeeping of the request made
  and of the two UUIDs and clock readings consumed. In particular the current result
  and the history are exactly as before.
\<close>

theorem C10_failed_search_effects:
  assumes "\<not> (js_trim (query_home w) = [] \<and> attachment w = None)"
      and "analyzeIssue E (requestCount w) (query_home w) (language w) (attachment w)
             (searchContext b w) = Inl err"
  shows "handleSearch E b w =
     w\<lparr>logs := logs w @
          [\<lparr>id_log = randomUUID E (uuidCount w), timestamp_log = dateNow E (clockCount w),
            type_log = Info,
            message = (if b then ''Loading more for: '' else ''New search: '') @ query_home w,
            details_log = (case attachment w of
                             Some a \<Rightarrow> Some (''With attachment: '' @ attName a) | None \<Rightarrow> None)\<rparr>,
           \<lparr>id_log = randomUUID E (uuidCount w + 1), timestamp_log = dateNow E (clockCount w + 1),
            type_log = Error, message = ''Analysis Failed'', details_log = message_err err\<rparr>],
        error_home := Some (case message_err err of
                              None \<Rightarrow> ''Unknown error occurred''
                            | Some m \<Rightarrow> (if m = [] then ''Unknown error occurred'' else m)),
        isLoading := False,
        trace := trace w @ [BroadRequest (query_home w) (language w) (attachment w) (searchContext b w)],
        uuidCount := uuidCount w + 2,
        clockCount := clockCount w + 2\<rparr>
     \<and> currentResult (handleSearch E b w) = currentResult w
     \<and> history (handleSearch E b w) = history w"
  by (simp add: handleSearch_failure [OF assms])

theorem C10_witness:
  "currentResult (handleSearch exEnvFail False exWorld) = Some exDoc
   \<and> history (handleSearch exEnvFail False exWorld) = [exDoc, exDoc2]
   \<and> error_home (handleSearch exEnvFail False exWorld) = Some ''Internal error''
   \<and> map message (logs (handleSearch exEnvFail False exWorld))
       = [''New search: q'', ''Analysis Failed'']"
proof -
  note st = C10_failed_search_effects [OF exWorld_fail_facts(1) exWorld_fail_facts(2), of False]
  from st have e: "handleSearch exEnvFail False exWorld =
     exWorld\<lparr>logs := logs exWorld @
          [\<lparr>id_log = randomUUID exEnvFail (uuidCount exWorld),
            timestamp_log = dateNow exEnvFail (clockCount exWorld),
            type_log = Info,
            message = (if False then ''Loading more for: '' else ''New search: '') @ query_home exWorld,
            details_log = (case attachment exWorld of
                             Some a \<Rightarrow> Some (''With attachment: '' @ attName a) | None \<Rightarrow> None)\<rparr>,
           \<lparr>id_log = randomUUID exEnvFail (uuidCount exWorld + 1),
            timestamp_log = dateNow exEnvFail (clockCount exWorld + 1),
            type_log = Error, message = ''Analysis Failed'', details_log = message_err exErr500\<rparr>],
        error_home := Some (case message_err exErr500 of
                              None \<Rightarrow> ''Unknown error occurred''
                            | Some m \<Rightarrow> (if m = [] then ''Unknown error occurred'' else m)),
        isLoading := False,
        trace := trace exWorld @ [BroadRequest (query_home exWorld) (language exWorld)
                   (attachment exWorld) (searchContext False exWorld)],
        uuidCount := uuidCount exWorld + 2,
        clockCount := clockCount exWorld + 2\<rparr>"
    by (rule conjunct1)
  show ?thesis unfolding e by (simp add: exWorld_def exErr500_def)
qed

section \<open>The drain loop\<close>

lemma whileLoop_done: "\<not> retries < maxRetries \<Longrightarrow> whileLoop E lang item retries w = w"
  by (subst whileLoop.simps) simp

lemma whileLoop_success:
  "retries < maxRetries \<Longrightarrow>
   analyzeSpecificItem E (requestCount w) (title item) (queryContext w) lang = Inr d \<Longrightarrow>
   whileLoop E lang item retries w =
     patchLatest item d (perform (DetailRequest (title item) (queryContext w) lang) w)"
  by (subst whileLoop.simps) simp

lemma whileLoop_break:
  "retries < maxRetries \<Longrightarrow>
   analyzeSpecificItem E (requestCount w) (title item) (queryContext w) lang = Inl e \<Longrightarrow>
   \<not> isRateLimit e \<Longrightarrow>
   whileLoop E lang item retries w =
     logEvent E Error (''Failed to generate: '' @ title item) (message_err e)
       (perform (DetailRequest (title item) (queryContext w) lang) w)"
  by (subst whileLoop.simps) simp

lemma whileLoop_retry:
  "retries < maxRetries \<Longrightarrow>
   analyzeSpecificItem E (requestCount w) (title item) (queryContext w) lang = Inl e \<Longrightarrow>
   isRateLimit e \<Longrightarrow>
   whileLoop E lang item retries w =
     whileLoop E lang item (retries + 1) (afterRateLimit E lang item retries w)"
  by (subst whileLoop.simps) (simp add: afterRateLimit_def)

text \<open>A property of the state before and after the inner loop, from its four ways through the body.\<close>

lemma whileLoop_rule:
  assumes stop: "\<And>w. P w w"
      and success: "\<And>w d. P w (patchLatest item d
                          (perform (DetailRequest (title item) (queryContext w) lang) w))"
      and break: "\<And>w (e :: JsError). P w (logEvent E Error (''Failed to generate: '' @ title item) (message_err e)
                          (perform (DetailRequest (title item) (queryContext w) lang) w))"
      and retry: "\<And>w r w'. P (afterRateLimit E lang item r w) w' \<Longrightarrow> P w w'"
  shows "P w (whileLoop E lang item retries w)"
  using assms
proof (induction E lang item retries w rule: whileLoop.induct)
  case (1 E lang item retries w)
  note stop = "1.prems"(1) and success = "1.prems"(2) and brk = "1.prems"(3)
    and retry = "1.prems"(4)
  show ?case
  proof (cases "retries < maxRetries")
    case False
    then show ?thesis by (simp add: whileLoop_done stop)
  next
    case True
    show ?thesis
    proof (cases "analyzeSpecificItem E (requestCount w) (title item) (queryContext w) lang")
      case (Inr d)
      show ?thesis unfolding whileLoop_success [OF True Inr] by (rule success)
    next
      case (Inl e)
      show ?thesis
      proof (cases "isRateLimit e")
        case False
        show ?thesis unfolding whileLoop_break [OF True Inl False] by (rule brk)
      next
        case rl: True
        have "P (afterRateLimit E lang item retries w)
                (whileLoop E lang item (retries + 1) (afterRateLimit E lang item retries w))"
          unfolding afterRateLimit_def
          by (rule "1.IH" [OF True Inl rl stop success brk retry])
        then show ?thesis
          unfolding whileLoop_retry [OF True Inl rl] by (rule retry)
      qed
    qed
  qed
qed

lemma forLoop_Cons:
  "forLoop E lang len i (item # rest) w = forLoop E lang len (i + 1) rest (iteration E lang len i item w)"
  by (simp add: iteration_def beforeItem_def)

lemma queryContext_cong: "currentResult w' = currentResult w \<Longrightarrow> queryContext w' = queryContext w"
  by (simp add: queryContext_def)

lemma requestCount_cong: "trace w' = trace w \<Longrightarrow> requestCount w' = requestCount w"
  by (simp add: requestCount_def)

lemma logEvent_fields:
  "trace (logEvent E ty m d w) = trace w"
  "currentResult (logEvent E ty m d w) = currentResult w"
  "history (logEvent E ty m d w) = history w"
  "genProgress (logEvent E ty m d w) = genProgress w"
  "isAutoGenerating (logEvent E ty m d w) = isAutoGenerating w"
  "statusMessage (logEvent E ty m d w) = statusMessage w"
  "queryContext (logEvent E ty m d w) = queryContext w"
  "requestCount (logEvent E ty m d w) = requestCount w"
  "logs (logEvent E ty m d w) =
     logs w @ [\<lparr>id_log = randomUUID E (uuidCount w), timestamp_log = dateNow E (clockCount w),
                 type_log = ty, message = m, details_log = d\<rparr>]"
  by (simp_all add: prim_defs queryContext_def requestCount_def)

lemma perform_fields:
  "trace (perform ev w) = trace w @ [ev]"
  "currentResult (perform ev w) = currentResult w"
  "history (perform ev w) = history w"
  "genProgress (perform ev w) = genProgress w"
  "isAutoGenerating (perform ev w) = isAutoGenerating w"
  "queryContext (perform ev w) = queryContext w"
  "logs (perform ev w) = logs w"
  by (simp_all add: prim_defs queryContext_def)

lemma setStatusMessage_fields:
  "trace (setStatusMessage m w) = trace w"
  "currentResult (setStatusMessage m w) = currentResult w"
  "history (setStatusMessage m w) = history w"
  "genProgress (setStatusMessage m w) = genProgress w"
  "isAutoGenerating (setStatusMessage m w) = isAutoGenerating w"
  "queryContext (setStatusMessage m w) = queryContext w"
  "requestCount (setStatusMessage m w) = requestCount w"
  "logs (setStatusMessage m w) = logs w"
  by (simp_all add: prim_defs queryContext_def requestCount_def)

lemma patchLatest_fields:
  "trace (patchLatest item d w) = trace w"
  "genProgress (patchLatest item d w) = genProgress w"
  "isAutoGenerating (patchLatest item d w) = isAutoGenerating w"
  "queryContext (patchLatest item d w) = queryContext w"
  "requestCount (patchLatest item d w) = requestCount w"
  "logs (patchLatest item d w) = logs w"
  "currentResult (patchLatest item d w) =
     (case currentResult w of None \<Rightarrow> None | Some cur \<Rightarrow> Some (attachDetail cur (id_item item) d))"
  by (simp_all add: patchLatest_def prim_defs queryContext_def requestCount_def attachDetail_def
        split: option.splits)

lemmas op_fields = logEvent_fields perform_fields setStatusMessage_fields patchLatest_fields
  requestCount_perform

lemma beforeItem_fields:
  "trace (beforeItem E lang len i item w) = trace w @ (if i > 0 then [Delay 4000] else [])"
  "currentResult (beforeItem E lang len i item w) = currentResult w"
  "history (beforeItem E lang len i item w) = history w"
  "genProgress (beforeItem E lang len i item w) = genProgress w"
  "queryContext (beforeItem E lang len i item w) = queryContext w"
  "requestCount (beforeItem E lang len i item w) = requestCount w"
  "logs (beforeItem E lang len i item w) = logs w"
  by (simp_all add: beforeItem_def op_fields)

lemma genProgress_whileLoop: "genProgress (whileLoop E lang item retries w) = genProgress w"
  by (rule whileLoop_rule [where P = "\<lambda>w w'. genProgress w' = genProgress w"])
     (simp_all add: afterRateLimit_def op_fields)

lemma genProgress_iteration:
  "genProgress (iteration E lang len i item w) = (i + 1, snd (genProgress w))"
  by (simp add: iteration_def genProgress_whileLoop beforeItem_fields)

lemma genProgress_forLoop:
  "genProgress (forLoop E lang len i items w) =
     (if items = [] then genProgress w else (i + length items, snd (genProgress w)))"
proof (induction items arbitrary: i w)
  case Nil
  then show ?case by simp
next
  case (Cons item rest)
  show ?case
    by (simp only: forLoop_Cons Cons.IH genProgress_iteration) simp
qed

lemma whileLoop_noRateLimit:
  assumes "noRateLimit E"
  shows "whileLoop E lang item 0 w = attemptOnce E lang item w"
proof (cases "analyzeSpecificItem E (requestCount w) (title item) (queryContext w) lang")
  case (Inl e)
  from assms have "case analyzeSpecificItem E (requestCount w) (title item) (queryContext w) lang of
                     Inl e \<Rightarrow> \<not> isRateLimit e | Inr d \<Rightarrow> True"
    unfolding noRateLimit_def by blast
  with Inl have "\<not> isRateLimit e" by simp
  with Inl show ?thesis
    by (simp add: whileLoop_break attemptOnce_def maxRetries_def)
next
  case (Inr d)
  then show ?thesis
    by (simp add: whileLoop_success attemptOnce_def maxRetries_def)
qed

lemma attemptOnce_fields:
  "trace (attemptOnce E lang item w) = trace w @ [DetailRequest (title item) (queryContext w) lang]"
  "queryContext (attemptOnce E lang item w) = queryContext w"
  "requestCount (attemptOnce E lang item w) = requestCount w + 1"
  by (simp_all add: attemptOnce_def op_fields split: sum.splits)

lemma iteration_noRateLimit:
  assumes "noRateLimit E"
  shows "trace (iteration E lang len i item w) =
           trace w @ (if i > 0 then [Delay 4000] else []) @ [DetailRequest (title item) (queryContext w) lang]"
    and "queryContext (iteration E lang len i item w) = queryContext w"
    and "requestCount (iteration E lang len i item w) = requestCount w + 1"
proof -
  let ?w2 = "attemptOnce E lang item (beforeItem E lang len i item w)"
  have it: "iteration E lang len i item w = ?w2\<lparr>genProgress := (i + 1, snd (genProgress ?w2))\<rparr>"
    by (simp add: iteration_def whileLoop_noRateLimit [OF assms])
  show "trace (iteration E lang len i item w) =
           trace w @ (if i > 0 then [Delay 4000] else []) @ [DetailRequest (title item) (queryContext w) lang]"
    by (simp add: it attemptOnce_fields beforeItem_fields)
  have "queryContext (iteration E lang len i item w) = queryContext ?w2"
    unfolding it by (rule queryContext_cong) simp
  then show "queryContext (iteration E lang len i item w) = queryContext w"
    by (simp add: attemptOnce_fields beforeItem_fields)
  have "requestCount (iteration E lang len i item w) = requestCount ?w2"
    unfolding it by (rule requestCount_cong) simp
  then show "requestCount (iteration E lang len i item w) = requestCount w + 1"
    by (simp add: attemptOnce_fields beforeItem_fields)
qed

lemma forLoop_trace_noRateLimit:
  assumes "noRateLimit E"
  shows "trace (forLoop E lang len i items w) =
           trace w @ drop (if i = 0 then 1 else 0)
             (concat (map (\<lambda>item. [Delay 4000, DetailRequest (title item) (queryContext w) lang]) items))"
proof (induction items arbitrary: i w)
  case Nil
  then show ?case by simp
next
  case (Cons item rest)
  show ?case
    by (simp only: forLoop_Cons Cons.IH iteration_noRateLimit [OF assms]) simp
qed

lemma triggerAutoGeneration_run:
  assumes "\<not> isAutoGenerating w"
  shows "triggerAutoGeneration E lang items w =
     logEvent E System ''Report Page: Generation Queue Complete'' None
       ((forLoop E lang (length items) 0 items
          (logEvent E System ''Report Page: Auto-Generation Started''
             (Some (''Queueing '' @ show_nat (length items) @ '' items with rate limiting...''))
             (w\<lparr>isAutoGenerating := True, genProgress := (0, length items)\<rparr>)))
        \<lparr>statusMessage := [], isAutoGenerating := False\<rparr>)"
  by (simp only: triggerAutoGeneration_def if_not_P [OF assms])

lemma trigger_trace_noRateLimit:
  assumes "noRateLimit E" and "\<not> isAutoGenerating w"
  shows "trace (triggerAutoGeneration E lang items w) =
           trace w @ tl (concat (map (\<lambda>item. [Delay 4000, DetailRequest (title item) (queryContext w) lang]) items))"
proof -
  have q0: "queryContext (w\<lparr>isAutoGenerating := True, genProgress := (0, length items)\<rparr>) = queryContext w"
    by (rule queryContext_cong) simp
  show ?thesis
    unfolding triggerAutoGeneration_run [OF assms(2)]
    by (simp add: op_fields forLoop_trace_noRateLimit [OF assms(1)] q0 drop_Suc)
qed

lemma trigger_genProgress:
  assumes "\<not> isAutoGenerating w"
  shows "genProgress (triggerAutoGeneration E lang items w) = (length items, length items)"
  unfolding triggerAutoGeneration_run [OF assms]
  by (simp add: op_fields genProgress_forLoop)

lemma trigger_currentResult:
  assumes "\<not> isAutoGenerating w"
  shows "currentResult (triggerAutoGeneration E lang items w) =
     currentResult (forLoop E lang (length items) 0 items
          (logEvent E System ''Report Page: Auto-Generation Started''
             (Some (''Queueing '' @ show_nat (length items) @ '' items with rate limiting...''))
             (w\<lparr>isAutoGenerating := True, genProgress := (0, length items)\<rparr>)))"
  unfolding triggerAutoGeneration_run [OF assms]
  by (simp add: op_fields)

section \<open>A run in which every request succeeds\<close>

lemma filter_requests_batch:
  fixes xs :: "SuggestionItem list"
  shows "filter isRequest (concat (map (\<lambda>item. [Delay 4000, DetailRequest (title item) q lang]) xs))
           = map (\<lambda>item. DetailRequest (title item) q lang) xs"
  by (induction xs) simp_all

lemma filter_requests_batch_tl:
  fixes xs :: "SuggestionItem list"
  shows "filter isRequest (tl (concat (map (\<lambda>item. [Delay 4000, DetailRequest (title item) q lang]) xs)))
           = map (\<lambda>item. DetailRequest (title item) q lang) xs"
  using filter_requests_batch [of q lang "tl xs"] by (cases xs) simp_all

text \<open>
  Claim C2. With a detail client that always succeeds, a drain run over a non-empty batch,
  started while no run is active, performs exactly these effects, in this order: the
  request for the first item, then for every further item a wait of 4000 ms followed by
  the request for that item. So there is one request per item, in batch order, and a
  4000 ms wait between any two consecutive requests. The progress counter ends at
  (N, N) for a batch of N items, and the run has ended (the flag is cleared).
\<close>

theorem C2_drain_all_succeed:
  assumes ok: "\<forall>n t q l. \<exists>d. analyzeSpecificItem E n t q l = Inr d"
      and idle: "\<not> isAutoGenerating w"
      and nonempty: "items \<noteq> []"
  shows "trace (triggerAutoGeneration E lang items w) =
           trace w @ tl (concat (map (\<lambda>item. [Delay 4000,
                                                 DetailRequest (title item) (queryContext w) lang])
                                  items))
         \<and> filter isRequest (drop (length (trace w)) (trace (triggerAutoGeneration E lang items w))) =
             map (\<lambda>item. DetailRequest (title item) (queryContext w) lang) items
         \<and> genProgress (triggerAutoGeneration E lang items w) = (length items, length items)
         \<and> isAutoGenerating (triggerAutoGeneration E lang items w) = False"
proof -
  have nrl: "noRateLimit E"
    unfolding noRateLimit_def using ok by (metis sum.simps(6))
  have t: "trace (triggerAutoGeneration E lang items w) =
           trace w @ tl (concat (map (\<lambda>item. [Delay 4000,
                                                 DetailRequest (title item) (queryContext w) lang])
                                  items))"
    by (rule trigger_trace_noRateLimit [OF nrl idle])
  have a: "isAutoGenerating (triggerAutoGeneration E lang items w) = False"
    unfolding triggerAutoGeneration_run [OF idle] by (simp add: op_fields)
  show ?thesis
    using t a trigger_genProgress [OF idle, of E lang items]
    by (simp add: filter_requests_batch_tl)
qed

theorem C2_witness:
  "trace (triggerAutoGeneration exEnvOk EN [exItemA, exItemB, exItemC] exWorld) =
     [DetailRequest ''A'' ''q'' EN, Delay 4000, DetailRequest ''B'' ''q'' EN, Delay 4000,
      DetailRequest ''C'' ''q'' EN]
   \<and> genProgress (triggerAutoGeneration exEnvOk EN [exItemA, exItemB, exItemC] exWorld) = (3, 3)"
proof -
  have ok: "\<forall>n t q l. \<exists>d. analyzeSpecificItem exEnvOk n t q l = Inr d"
    by (simp add: exEnvOk_def exEnv_def)
  have ne: "[exItemA, exItemB, exItemC] \<noteq> []" by simp
  from C2_drain_all_succeed [OF ok exWorld_fields(2) ne, of EN]
  show ?thesis by (simp add: exWorld_fields exItem_fields)
qed

section \<open>Rate-limited failures\<close>

lemmas drain_eval = triggerAutoGeneration_def whileLoop.simps maxRetries_def prim_defs
  requestCount_def queryContext_def patchLatest_def attachDetail_def patchItems_def isRateLimit_ex

text \<open>
  Claim C1 has the waits after a rate-limited failure be 12000, 14000 and 16000 ms, with
  up to three retries, as the comment on line 97 does. The code increments
  \<^verbatim>\<open>retries\<close> before it computes the wait. In a batch A, B, C where the two first
  requests for B fail rate limited, B is retried twice and then succeeds, but the waits
  are 14000 ms then 16000 ms. Where the three first requests of a run all fail rate
  limited, the item gets those three requests (two retries), a wait of 18000 ms follows
  the last failure although no retry comes after it, and the run goes on to the next
  item with the details of the abandoned one absent.
\<close>

theorem C1_backoff_as_coded:
  "trace (triggerAutoGeneration exEnv429Twice EN [exItemA, exItemB, exItemC] exWorld) =
     [DetailRequest ''A'' ''q'' EN, Delay 4000,
      DetailRequest ''B'' ''q'' EN, Delay 14000,
      DetailRequest ''B'' ''q'' EN, Delay 16000,
      DetailRequest ''B'' ''q'' EN, Delay 4000,
      DetailRequest ''C'' ''q'' EN]
   \<and> trace (triggerAutoGeneration exEnv429Thrice EN [exItemA, exItemB] exWorld) =
     [DetailRequest ''A'' ''q'' EN, Delay 14000,
      DetailRequest ''A'' ''q'' EN, Delay 16000,
      DetailRequest ''A'' ''q'' EN, Delay 18000, Delay 4000,
      DetailRequest ''B'' ''q'' EN]
   \<and> currentResult (triggerAutoGeneration exEnv429Thrice EN [exItemA, exItemB] exWorld) =
       Some (exDoc\<lparr>suggestions := [exItemA, exItemB\<lparr>details := Some exDetails\<rparr>, exItemC, exItemD]\<rparr>)"
  by (simp add: drain_eval exWorld_def exEnv429Twice_def exEnv429Thrice_def exEnv_def exDoc_def
        exItemA_def exItemB_def exItemC_def exItemD_def)

section \<open>Failures that are not rate limited\<close>

lemmas settle_eval = autoGenSettle.simps publishedAtEnd_def autoGenEffect_def autoGenBatch_def
  missingItems_def drain_eval exWorld_def exEnv_def exDoc_def exItemA_def exItemB_def exItemC_def
  exItemD_def

text \<open>
  Claim C3 has an item whose request fails with an error not classified as rate limited
  abandoned after exactly one attempt, its details staying absent in the final document.
  Within a run the code does so: the failure leaves the inner loop at once, with one
  request, one error entry and no wait (line 119: skip the item). But in \<open>exWorld\<close>,
  with four items of which the third is the one that fails, the run's last request, for
  the fourth item, succeeds, so the render that ends the run fires the effect again, and
  the effect finds the abandoned item missing and starts a further run over it. The
  item is requested a second time, directly after the request for the fourth item with
  no wait between the two. Where only the third request fails, the second request for
  the item succeeds and the final document has details on all four items; where every
  request for the item fails, the item is attempted and logged as failed twice.
\<close>

theorem C3_abandoned_item_requested_again:
  "currentResult (autoGenEffect exEnvThirdFails exWorld) =
     Some (exDoc\<lparr>suggestions := [exItemA\<lparr>details := Some exDetails\<rparr>,
                                   exItemB\<lparr>details := Some exDetails\<rparr>,
                                   exItemC,
                                   exItemD\<lparr>details := Some exDetails\<rparr>]\<rparr>)
   \<and> trace (autoGenEffect exEnvThirdFails exWorld) =
       [DetailRequest ''A'' ''q'' EN, Delay 4000, DetailRequest ''B'' ''q'' EN, Delay 4000,
        DetailRequest ''C'' ''q'' EN, Delay 4000, DetailRequest ''D'' ''q'' EN]
   \<and> isAutoGenerating (autoGenEffect exEnvThirdFails exWorld) = False
   \<and> publishedAtEnd exEnvThirdFails (autoGenEffect exEnvThirdFails exWorld)
   \<and> autoGenBatch (autoGenEffect exEnvThirdFails exWorld) = Some [exItemC]
   \<and> (\<exists>w. autoGenSettle exEnvThirdFails exWorld = Some w
          \<and> trace w =
              [DetailRequest ''A'' ''q'' EN, Delay 4000, DetailRequest ''B'' ''q'' EN, Delay 4000,
               DetailRequest ''C'' ''q'' EN, Delay 4000, DetailRequest ''D'' ''q'' EN,
               DetailRequest ''C'' ''q'' EN]
          \<and> currentResult w =
              Some (exDoc\<lparr>suggestions := [exItemA\<lparr>details := Some exDetails\<rparr>,
                                            exItemB\<lparr>details := Some exDetails\<rparr>,
                                            exItemC\<lparr>details := Some exDetails\<rparr>,
                                            exItemD\<lparr>details := Some exDetails\<rparr>]\<rparr>))
   \<and> (\<exists>w. autoGenSettle exEnvItemCFails exWorld = Some w
          \<and> trace w =
              [DetailRequest ''A'' ''q'' EN, Delay 4000, DetailRequest ''B'' ''q'' EN, Delay 4000,
               DetailRequest ''C'' ''q'' EN, Delay 4000, DetailRequest ''D'' ''q'' EN,
               DetailRequest ''C'' ''q'' EN]
          \<and> map (\<lambda>entry. (type_log entry, message entry)) (logs w) =
              [(System, ''Report Page: Auto-Generation Started''),
               (Error, ''Failed to generate: C''),
               (System, ''Report Page: Generation Queue Complete''),
               (System, ''Report Page: Auto-Generation Started''),
               (Error, ''Failed to generate: C''),
               (System, ''Report Page: Generation Queue Complete'')]
          \<and> currentResult w =
              Some (exDoc\<lparr>suggestions := [exItemA\<lparr>details := Some exDetails\<rparr>,
                                            exItemB\<lparr>details := Some exDetails\<rparr>,
                                            exItemC,
                                            exItemD\<lparr>details := Some exDetails\<rparr>]\<rparr>))"
proof (intro conjI)
  show "\<exists>w. autoGenSettle exEnvThirdFails exWorld = Some w
          \<and> trace w =
              [DetailRequest ''A'' ''q'' EN, Delay 4000, DetailRequest ''B'' ''q'' EN, Delay 4000,
               DetailRequest ''C'' ''q'' EN, Delay 4000, DetailRequest ''D'' ''q'' EN,
               DetailRequest ''C'' ''q'' EN]
          \<and> currentResult w =
              Some (exDoc\<lparr>suggestions := [exItemA\<lparr>details := Some exDetails\<rparr>,
                                            exItemB\<lparr>details := Some exDetails\<rparr>,
                                            exItemC\<lparr>details := Some exDetails\<rparr>,
                                            exItemD\<lparr>details := Some exDetails\<rparr>]\<rparr>)"
    by (simp add: settle_eval exEnvThirdFails_def)
  show "\<exists>w. autoGenSettle exEnvItemCFails exWorld = Some w
          \<and> trace w =
              [DetailRequest ''A'' ''q'' EN, Delay 4000, DetailRequest ''B'' ''q'' EN, Delay 4000,
               DetailRequest ''C'' ''q'' EN, Delay 4000, DetailRequest ''D'' ''q'' EN,
               DetailRequest ''C'' ''q'' EN]
          \<and> map (\<lambda>entry. (type_log entry, message entry)) (logs w) =
              [(System, ''Report Page: Auto-Generation Started''),
               (Error, ''Failed to generate: C''),
               (System, ''Report Page: Generation Queue Complete''),
               (System, ''Report Page: Auto-Generation Started''),
               (Error, ''Failed to generate: C''),
               (System, ''Report Page: Generation Queue Complete'')]
          \<and> currentResult w =
              Some (exDoc\<lparr>suggestions := [exItemA\<lparr>details := Some exDetails\<rparr>,
                                            exItemB\<lparr>details := Some exDetails\<rparr>,
                                            exItemC,
                                            exItemD\<lparr>details := Some exDetails\<rparr>]\<rparr>)"
    by (simp add: settle_eval exEnvItemCFails_def exEnvOk_def)
qed (simp_all add: settle_eval exEnvThirdFails_def)

section \<open>One run at a time\<close>

lemma trigger_ignored: "isAutoGenerating w \<Longrightarrow> triggerAutoGeneration E lang items w = w"
  by (simp add: triggerAutoGeneration_def)

lemma autoGenEffect_ignored: "isAutoGenerating w \<Longrightarrow> autoGenEffect E w = w"
  by (simp add: autoGenEffect_def autoGenBatch_def split: option.splits)

text \<open>
  Claim C4 has at most one drain run active at a time, also when the report screen is
  entered again while a run is active. In \<open>exRunning\<close> a run is at its first request.
  The page that started it ignores a further trigger and a further pass of its effect.
  But the flag is a state cell of the page: leaving the screen unmounts the page without
  cancelling the loop (the effect returns no cleanup), and entering it again mounts a
  page whose flag is false, so its effect takes the items without details, among them
  the one whose request is in flight, and starts a run of its own: a second request for
  the first item is issued while the first run's request is still unanswered.
\<close>

theorem C4_remount_starts_second_run:
  "isAutoGenerating exRunning
   \<and> trace exRunning = [DetailRequest ''A'' ''q'' EN]
   \<and> triggerAutoGeneration exEnvOk EN [exItemA, exItemB, exItemC, exItemD] exRunning = exRunning
   \<and> autoGenEffect exEnvOk exRunning = exRunning
   \<and> isAutoGenerating (mountReportPage exRunning) = False
   \<and> autoGenBatch (mountReportPage exRunning) = Some [exItemA, exItemB, exItemC, exItemD]
   \<and> trace (autoGenEffect exEnvOk (mountReportPage exRunning)) =
       [DetailRequest ''A'' ''q'' EN,
        DetailRequest ''A'' ''q'' EN, Delay 4000, DetailRequest ''B'' ''q'' EN, Delay 4000,
        DetailRequest ''C'' ''q'' EN, Delay 4000, DetailRequest ''D'' ''q'' EN]"
proof -
  have r: "isAutoGenerating exRunning"
    by (simp add: exRunning_def beforeItem_def prim_defs)
  have t: "trace exRunning = [DetailRequest ''A'' ''q'' EN]"
    by (simp add: exRunning_def beforeItem_def prim_defs exWorld_def)
  have m: "isAutoGenerating (mountReportPage exRunning) = False"
    by (simp add: mountReportPage_def)
  have c: "currentResult (mountReportPage exRunning) = Some exDoc"
    by (simp add: mountReportPage_def exRunning_def beforeItem_def prim_defs exWorld_def)
  have b: "autoGenBatch (mountReportPage exRunning) = Some [exItemA, exItemB, exItemC, exItemD]"
    by (simp add: autoGenBatch_def c m missingItems_def exDoc_fields exItem_fields)
  have l: "language (mountReportPage exRunning) = EN"
    by (simp add: mountReportPage_def exRunning_def beforeItem_def prim_defs exWorld_def)
  have ok: "noRateLimit exEnvOk"
    by (simp add: noRateLimit_def exEnvOk_def exEnv_def)
  have q: "queryContext (mountReportPage exRunning) = ''q''"
    by (simp add: queryContext_def c exDoc_fields)
  have tm: "trace (mountReportPage exRunning) = [DetailRequest ''A'' ''q'' EN]"
    using t by (simp add: mountReportPage_def)
  have e: "trace (autoGenEffect exEnvOk (mountReportPage exRunning)) =
       [DetailRequest ''A'' ''q'' EN,
        DetailRequest ''A'' ''q'' EN, Delay 4000, DetailRequest ''B'' ''q'' EN, Delay 4000,
        DetailRequest ''C'' ''q'' EN, Delay 4000, DetailRequest ''D'' ''q'' EN]"
    using m by (simp add: autoGenEffect_def b l trigger_trace_noRateLimit [OF ok] q tm exItem_fields)
  from r t m b e show ?thesis
    by (simp add: trigger_ignored autoGenEffect_ignored)
qed

section \<open>The lifecycle of an item's details\<close>

lemma touched_refl: "touched items s s"
  by (simp add: touched_def)

lemma touched_trans:
  "touched [item] s s1 \<Longrightarrow> touched rest s1 s2 \<Longrightarrow> touched (item # rest) s s2"
  by (auto simp: touched_def)

lemma touched_patchItems:
  "list_all2 (touched [item]) ss (patchItems (id_item item) d ss)"
  by (induction ss) (auto simp: patchItems_def touched_def)

lemma whileLoop_touched:
  "\<forall>cur. currentResult w = Some cur \<longrightarrow>
     (\<exists>cur'. currentResult (whileLoop E lang item retries w) = Some cur'
        \<and> cur' = cur\<lparr>suggestions := suggestions cur'\<rparr>
        \<and> list_all2 (touched [item]) (suggestions cur) (suggestions cur'))"
proof (rule whileLoop_rule
    [where P = "\<lambda>w w'. \<forall>cur. currentResult w = Some cur \<longrightarrow>
     (\<exists>cur'. currentResult w' = Some cur'
        \<and> cur' = cur\<lparr>suggestions := suggestions cur'\<rparr>
        \<and> list_all2 (touched [item]) (suggestions cur) (suggestions cur'))"])
  fix w
  show "\<forall>cur. currentResult w = Some cur \<longrightarrow>
     (\<exists>cur'. currentResult w = Some cur'
        \<and> cur' = cur\<lparr>suggestions := suggestions cur'\<rparr>
        \<and> list_all2 (touched [item]) (suggestions cur) (suggestions cur'))"
    by (simp add: list.rel_refl touched_refl)
next
  fix w d
  show "\<forall>cur. currentResult w = Some cur \<longrightarrow>
     (\<exists>cur'. currentResult (patchLatest item d
                  (perform (DetailRequest (title item) (queryContext w) lang) w)) = Some cur'
        \<and> cur' = cur\<lparr>suggestions := suggestions cur'\<rparr>
        \<and> list_all2 (touched [item]) (suggestions cur) (suggestions cur'))"
    by (simp add: op_fields attachDetail_def touched_patchItems)
next
  fix w and e :: JsError
  show "\<forall>cur. currentResult w = Some cur \<longrightarrow>
     (\<exists>cur'. currentResult (logEvent E Error (''Failed to generate: '' @ title item) (message_err e)
                  (perform (DetailRequest (title item) (queryContext w) lang) w)) = Some cur'
        \<and> cur' = cur\<lparr>suggestions := suggestions cur'\<rparr>
        \<and> list_all2 (touched [item]) (suggestions cur) (suggestions cur'))"
    by (simp add: op_fields list.rel_refl touched_refl)
next
  fix w r w'
  assume "\<forall>cur. currentResult (afterRateLimit E lang item r w) = Some cur \<longrightarrow>
     (\<exists>cur'. currentResult w' = Some cur'
        \<and> cur' = cur\<lparr>suggestions := suggestions cur'\<rparr>
        \<and> list_all2 (touched [item]) (suggestions cur) (suggestions cur'))"
  then show "\<forall>cur. currentResult w = Some cur \<longrightarrow>
     (\<exists>cur'. currentResult w' = Some cur'
        \<and> cur' = cur\<lparr>suggestions := suggestions cur'\<rparr>
        \<and> list_all2 (touched [item]) (suggestions cur) (suggestions cur'))"
    by (simp add: afterRateLimit_def op_fields)
qed

lemma iteration_touched:
  assumes "currentResult w = Some cur"
  shows "\<exists>cur'. currentResult (iteration E lang len i item w) = Some cur'
        \<and> cur' = cur\<lparr>suggestions := suggestions cur'\<rparr>
        \<and> list_all2 (touched [item]) (suggestions cur) (suggestions cur')"
proof -
  have "currentResult (beforeItem E lang len i item w) = Some cur"
    using assms by (simp add: beforeItem_fields)
  with whileLoop_touched [of "beforeItem E lang len i item w" E lang item 0]
  show ?thesis by (simp add: iteration_def)
qed

lemma forLoop_touched:
  "currentResult w = Some cur \<Longrightarrow>
   \<exists>cur'. currentResult (forLoop E lang len i items w) = Some cur'
        \<and> cur' = cur\<lparr>suggestions := suggestions cur'\<rparr>
        \<and> list_all2 (touched items) (suggestions cur) (suggestions cur')"
proof (induction items arbitrary: i w cur)
  case Nil
  then show ?case by (simp add: list.rel_refl touched_refl)
next
  case (Cons item rest)
  from iteration_touched [OF Cons.prems, of E lang len i item] obtain cur1 where
    c1: "currentResult (iteration E lang len i item w) = Some cur1"
    and e1: "cur1 = cur\<lparr>suggestions := suggestions cur1\<rparr>"
    and t1: "list_all2 (touched [item]) (suggestions cur) (suggestions cur1)"
    by blast
  from Cons.IH [OF c1, of "i + 1"] obtain cur2 where
    c2: "currentResult (forLoop E lang len (i + 1) rest (iteration E lang len i item w)) = Some cur2"
    and e2: "cur2 = cur1\<lparr>suggestions := suggestions cur2\<rparr>"
    and t2: "list_all2 (touched rest) (suggestions cur1) (suggestions cur2)"
    by blast
  have t: "list_all2 (touched (item # rest)) (suggestions cur) (suggestions cur2)"
    using t1 t2 by (rule list_all2_trans [rotated]) (rule touched_trans)
  have e: "cur2 = cur\<lparr>suggestions := suggestions cur2\<rparr>"
    by (subst e2, subst e1) simp
  from c2 e t show ?case
    unfolding forLoop_Cons by blast
qed

lemma trigger_touched:
  assumes "\<not> isAutoGenerating w" and "currentResult w = Some cur"
  shows "\<exists>cur'. currentResult (triggerAutoGeneration E lang items w) = Some cur'
        \<and> cur' = cur\<lparr>suggestions := suggestions cur'\<rparr>
        \<and> list_all2 (touched items) (suggestions cur) (suggestions cur')"
proof -
  let ?w0 = "logEvent E System ''Report Page: Auto-Generation Started''
             (Some (''Queueing '' @ show_nat (length items) @ '' items with rate limiting...''))
             (w\<lparr>isAutoGenerating := True, genProgress := (0, length items)\<rparr>)"
  have c: "currentResult ?w0 = Some cur" using assms(2) by (simp add: op_fields)
  from forLoop_touched [OF c] show ?thesis
    unfolding trigger_currentResult [OF assms(1)] .
qed

lemma touched_missing_keeps:
  assumes d: "distinct (map id_item ss)" and s: "s \<in> set ss" and p: "details s \<noteq> None"
      and t: "touched (filter (\<lambda>s. details s = None) ss) s s'"
  shows "s' = s"
proof (rule ccontr)
  assume "s' \<noteq> s"
  with t obtain m where m: "m \<in> set ss" "details m = None" "id_item m = id_item s"
    by (auto simp: touched_def)
  from d have "inj_on id_item (set ss)" by (simp add: distinct_map)
  with m s have "m = s" by (auto dest: inj_onD)
  with m p show False by simp
qed

lemma touched_never_clears: "touched items s s' \<Longrightarrow> details s \<noteq> None \<Longrightarrow> details s' \<noteq> None"
  by (auto simp: touched_def)

lemma newSuggestions_no_details: "\<forall>s \<in> set (newSuggestions E u raw). details s = None"
proof -
  have "set (map details (newSuggestions E u raw)) \<subseteq> {None}"
    by (simp only: newSuggestions_props) (auto simp: set_replicate_conv_if)
  then show ?thesis by auto
qed

lemma autoGenBatch_missing:
  "autoGenBatch w = Some batch \<Longrightarrow>
     (\<forall>s \<in> set batch. details s = None)
     \<and> (\<exists>r. currentResult w = Some r \<and> batch = missingItems r)"
  by (auto simp: autoGenBatch_def missingItems_def split: option.splits if_splits)

lemma handleItemClick_present:
  "details item \<noteq> None \<Longrightarrow>
     trace (handleItemClick E item w) = trace w
     \<and> currentResult (handleItemClick E item w) = currentResult w
     \<and> history (handleItemClick E item w) = history w"
  by (simp add: handleItemClick_def)

lemma patchItems_pointwise:
  "list_all2 (\<lambda>s s'. id_item s' = id_item s \<and> (id_item s \<noteq> i \<longrightarrow> s' = s)
                      \<and> (id_item s = i \<longrightarrow> s' = s\<lparr>details := Some d\<rparr>)
                      \<and> (details s \<noteq> None \<longrightarrow> details s' \<noteq> None))
     ss (patchItems i d ss)"
  by (induction ss) (auto simp: patchItems_def)

lemma upsert_stores: "r \<in> set (upsert r h)"
proof (cases "id_result r \<in> id_result ` set h")
  case True
  from upsert_present [OF True] obtain k where "k < length h" "upsert r h = h[k := r]" by blast
  then show ?thesis by (simp add: set_update_memI)
next
  case False
  then show ?thesis by (simp add: upsert_absent)
qed

lemma upsert_keeps_others:
  assumes "p \<in> set h" and "id_result p \<noteq> id_result r"
  shows "p \<in> set (upsert r h)"
proof (cases "id_result r \<in> id_result ` set h")
  case True
  from upsert_present [OF True] obtain k where
    k: "k < length h" "id_result (h ! k) = id_result r" "upsert r h = h[k := r]" by blast
  from assms(1) obtain j where j: "j < length h" "h ! j = p" by (auto simp: in_set_conv_nth)
  with k assms(2) have "j \<noteq> k" by auto
  with j k have "(h[k := r]) ! j = p" "j < length (h[k := r])" by simp_all
  then have "p \<in> set (h[k := r])" by (metis nth_mem)
  with k show ?thesis by simp
next
  case False
  with assms show ?thesis by (simp add: upsert_absent)
qed

lemma autoGenEffect_keeps_populated:
  assumes cur: "currentResult w = Some doc" and dist: "distinct (map id_item (suggestions doc))"
  shows "\<exists>doc'. currentResult (autoGenEffect E w) = Some doc'
           \<and> doc' = doc\<lparr>suggestions := suggestions doc'\<rparr>
           \<and> list_all2 (\<lambda>s s'. details s \<noteq> None \<longrightarrow> s' = s) (suggestions doc) (suggestions doc')"
proof (cases "autoGenBatch w")
  case None
  then have "autoGenEffect E w = w" by (simp add: autoGenEffect_def)
  with cur show ?thesis by (simp add: list.rel_refl)
next
  case (Some batch)
  with cur have idle: "\<not> isAutoGenerating w" and b: "batch = missingItems doc"
    by (auto simp: autoGenBatch_def split: if_splits)
  from Some have eff: "autoGenEffect E w = triggerAutoGeneration E (language w) batch w"
    by (simp add: autoGenEffect_def)
  from trigger_touched [OF idle cur, of E "language w" batch] obtain doc' where
    c: "currentResult (triggerAutoGeneration E (language w) batch w) = Some doc'"
    and e: "doc' = doc\<lparr>suggestions := suggestions doc'\<rparr>"
    and t: "list_all2 (touched batch) (suggestions doc) (suggestions doc')"
    by blast
  have "list_all2 (\<lambda>s s'. details s \<noteq> None \<longrightarrow> s' = s) (suggestions doc) (suggestions doc')"
    using t
  proof (rule list.rel_mono_strong)
    fix s s'
    assume "s \<in> set (suggestions doc)" and "touched batch s s'"
    then show "details s \<noteq> None \<longrightarrow> s' = s"
      using touched_missing_keeps [OF dist, of s s'] by (simp add: b missingItems_def)
  qed
  with c e show ?thesis unfolding eff by blast
qed

lemma trigger_never_clears:
  assumes cur: "currentResult w = Some doc"
  shows "\<exists>doc'. currentResult (triggerAutoGeneration E lang items w) = Some doc'
           \<and> list_all2 (\<lambda>s s'. details s \<noteq> None \<longrightarrow> details s' \<noteq> None)
                (suggestions doc) (suggestions doc')"
proof (cases "isAutoGenerating w")
  case True
  with cur show ?thesis by (simp add: trigger_ignored list.rel_refl)
next
  case False
  from trigger_touched [OF False cur, of E lang items] obtain doc' where
    c: "currentResult (triggerAutoGeneration E lang items w) = Some doc'"
    and t: "list_all2 (touched items) (suggestions doc) (suggestions doc')"
    by blast
  from t have "list_all2 (\<lambda>s s'. details s \<noteq> None \<longrightarrow> details s' \<noteq> None)
                (suggestions doc) (suggestions doc')"
    by (rule list_all2_mono) (auto dest: touched_never_clears)
  with c show ?thesis by blast
qed

text \<open>
  Claim C8, as stated, has no operation ever replace a populated details value. The
  patch of both detail paths carries no check of the item's present details. In the
  session \<open>exWorld\<close> the page's effect takes the four items as its batch, none having
  details; the on-demand path then attaches an answer to the first item; when the drain,
  holding the batch it took, comes to patch that item, it writes its own answer over the
  one present. The same holds of the patch applied directly to a document whose target
  item is populated.
\<close>

theorem C8_counterexample:
  "autoGenBatch exWorld = Some [exItemA, exItemB, exItemC, exItemD]
   \<and> currentResult (handleItemClick exEnvFirstOld exItemA exWorld) = Some exDocA
   \<and> currentResult (triggerAutoGeneration exEnvFirstOld EN [exItemA, exItemB, exItemC, exItemD]
                      (handleItemClick exEnvFirstOld exItemA exWorld)) =
       Some (exDoc\<lparr>suggestions := [exItemA\<lparr>details := Some exDetails\<rparr>,
                                     exItemB\<lparr>details := Some exDetails\<rparr>,
                                     exItemC\<lparr>details := Some exDetails\<rparr>,
                                     exItemD\<lparr>details := Some exDetails\<rparr>]\<rparr>)
   \<and> attachDetail exDocA ''a'' exDetails =
       exDoc\<lparr>suggestions := [exItemA\<lparr>details := Some exDetails\<rparr>, exItemB, exItemC, exItemD]\<rparr>
   \<and> exDetailsOld \<noteq> exDetails"
proof -
  have b: "autoGenBatch exWorld = Some [exItemA, exItemB, exItemC, exItemD]"
    by (simp add: autoGenBatch_def exWorld_fields missingItems_def exDoc_fields exItem_fields)
  have k: "handleItemClick exEnvFirstOld exItemA exWorld =
             exWorld\<lparr>currentResult := Some exDocA, history := [exDocA, exDoc2],
                      selectedItem := Some (exItemA\<lparr>details := Some exDetailsOld\<rparr>),
                      isModalOpen := True,
                      logs := [\<lparr>id_log = ''uuid-0'', timestamp_log = 5000, type_log = Info,
                                message = ''Fetching details for item: A'', details_log = None\<rparr>],
                      trace := [DetailRequest ''A'' ''q'' EN], uuidCount := 1, clockCount := 1\<rparr>"
    by (simp add: handleItemClick_def Let_def prim_defs requestCount_def attachDetail_def
          patchItems_def upsert_def exWorld_def exEnvFirstOld_def exEnv_def exDocA_def exDoc_def
          exDoc2_def exItemA_def exItemB_def exItemC_def exItemD_def show_nat_small)
  have d: "currentResult (triggerAutoGeneration exEnvFirstOld EN [exItemA, exItemB, exItemC, exItemD]
                      (handleItemClick exEnvFirstOld exItemA exWorld)) =
       Some (exDoc\<lparr>suggestions := [exItemA\<lparr>details := Some exDetails\<rparr>,
                                     exItemB\<lparr>details := Some exDetails\<rparr>,
                                     exItemC\<lparr>details := Some exDetails\<rparr>,
                                     exItemD\<lparr>details := Some exDetails\<rparr>]\<rparr>)"
    unfolding k
    by (simp add: drain_eval exWorld_def exEnvFirstOld_def exEnv_def exDocA_def exDoc_def
          exItemA_def exItemB_def exItemC_def exItemD_def)
  have a: "attachDetail exDocA ''a'' exDetails =
       exDoc\<lparr>suggestions := [exItemA\<lparr>details := Some exDetails\<rparr>, exItemB, exItemC, exItemD]\<rparr>"
    by (simp add: attachDetail_def patchItems_def exDocA_def exDoc_def exItem_fields)
  from b k d a exDetails_differ show ?thesis by simp
qed

text \<open>
  Claim C8, amended. Items are created without details. The batch the page's effect
  hands to the drain consists of the items of the current document that lack details at
  that moment. The on-demand path, given an item whose details are present, issues no
  request and leaves the current document and the history as they are. Pagination
  append keeps the prior items as they are; the history upsert stores the document it is
  given and keeps the entries of other identities; restoring publishes the stored
  document as it is. The patch keeps every item's id, changes no item whose id is not
  the target's, sets the details of the items whose id is the target's to the fetched
  value whether or not details were present, and so never clears details. Hence a drain
  run over any batch never clears details, and a run started by the page's effect on a
  document with distinct item ids, with nothing else acting in between, leaves every
  item that was populated before the run exactly as it was.
\<close>

theorem C8_details_lifecycle:
  "(\<forall>s \<in> set (newSuggestions E u raw). details s = None)
   \<and> (autoGenBatch w = Some batch \<longrightarrow>
        (\<forall>s \<in> set batch. details s = None)
        \<and> (\<exists>r. currentResult w = Some r \<and> batch = missingItems r))
   \<and> (details item \<noteq> None \<longrightarrow>
        trace (handleItemClick E item w) = trace w
        \<and> currentResult (handleItemClick E item w) = currentResult w
        \<and> history (handleItemClick E item w) = history w)
   \<and> suggestions (appendPage doc new resp) = suggestions doc @ new
   \<and> r \<in> set (upsert r h)
   \<and> (p \<in> set h \<and> id_result p \<noteq> id_result r \<longrightarrow> p \<in> set (upsert r h))
   \<and> currentResult (handleRestore E r w) = Some r
   \<and> (restoredItem w = Some r \<longrightarrow> currentResult (restoreEffect w) = Some r)
   \<and> list_all2 (\<lambda>s s'. id_item s' = id_item s \<and> (id_item s \<noteq> i \<longrightarrow> s' = s)
                        \<and> (id_item s = i \<longrightarrow> s' = s\<lparr>details := Some d\<rparr>)
                        \<and> (details s \<noteq> None \<longrightarrow> details s' \<noteq> None))
       (suggestions doc) (suggestions (attachDetail doc i d))
   \<and> (currentResult w = Some doc \<longrightarrow>
        (\<exists>doc'. currentResult (triggerAutoGeneration E lang items w) = Some doc'
           \<and> list_all2 (\<lambda>s s'. details s \<noteq> None \<longrightarrow> details s' \<noteq> None)
                (suggestions doc) (suggestions doc')))
   \<and> (currentResult w = Some doc \<and> distinct (map id_item (suggestions doc)) \<longrightarrow>
        (\<exists>doc'. currentResult (autoGenEffect E w) = Some doc'
           \<and> doc' = doc\<lparr>suggestions := suggestions doc'\<rparr>
           \<and> list_all2 (\<lambda>s s'. details s \<noteq> None \<longrightarrow> s' = s) (suggestions doc) (suggestions doc')))"
proof (intro conjI impI)
  show "\<forall>s \<in> set (newSuggestions E u raw). details s = None"
    by (rule newSuggestions_no_details)
  show "suggestions (appendPage doc new resp) = suggestions doc @ new"
    by (simp add: appendPage_def)
  show "r \<in> set (upsert r h)" by (rule upsert_stores)
  show "currentResult (handleRestore E r w) = Some r"
    by (simp add: handleRestore_def op_fields)
  show "list_all2 (\<lambda>s s'. id_item s' = id_item s \<and> (id_item s \<noteq> i \<longrightarrow> s' = s)
                        \<and> (id_item s = i \<longrightarrow> s' = s\<lparr>details := Some d\<rparr>)
                        \<and> (details s \<noteq> None \<longrightarrow> details s' \<noteq> None))
       (suggestions doc) (suggestions (attachDetail doc i d))"
    unfolding attachDetail_def using patchItems_pointwise [of i d "suggestions doc"] by simp
next
  assume "autoGenBatch w = Some batch"
  from autoGenBatch_missing [OF this]
  show "\<forall>s \<in> set batch. details s = None"
    and "\<exists>r. currentResult w = Some r \<and> batch = missingItems r" by blast+
next
  assume "details item \<noteq> None"
  from handleItemClick_present [OF this, of E w]
  show "trace (handleItemClick E item w) = trace w"
    and "currentResult (handleItemClick E item w) = currentResult w"
    and "history (handleItemClick E item w) = history w" by blast+
next
  assume "p \<in> set h \<and> id_result p \<noteq> id_result r"
  then show "p \<in> set (upsert r h)" by (simp add: upsert_keeps_others)
next
  assume "restoredItem w = Some r"
  then show "currentResult (restoreEffect w) = Some r" by (simp add: restoreEffect_def)
next
  assume "currentResult w = Some doc"
  then show "\<exists>doc'. currentResult (triggerAutoGeneration E lang items w) = Some doc'
           \<and> list_all2 (\<lambda>s s'. details s \<noteq> None \<longrightarrow> details s' \<noteq> None)
                (suggestions doc) (suggestions doc')"
    by (rule trigger_never_clears)
next
  assume "currentResult w = Some doc \<and> distinct (map id_item (suggestions doc))"
  then have "currentResult w = Some doc" and "distinct (map id_item (suggestions doc))"
    by blast+
  then show "\<exists>doc'. currentResult (autoGenEffect E w) = Some doc'
           \<and> doc' = doc\<lparr>suggestions := suggestions doc'\<rparr>
           \<and> list_all2 (\<lambda>s s'. details s \<noteq> None \<longrightarrow> s' = s) (suggestions doc) (suggestions doc')"
    by (rule autoGenEffect_keeps_populated)
qed

theorem C8_witness:
  "details exItemA = None
   \<and> trace (handleItemClick exEnvOk (exItemA\<lparr>details := Some exDetailsOld\<rparr>) exWorldA) = []
   \<and> currentResult (handleItemClick exEnvOk (exItemA\<lparr>details := Some exDetailsOld\<rparr>) exWorldA)
       = Some exDocA
   \<and> exDoc2 \<in> set (upsert exDocA [exDoc, exDoc2])
   \<and> currentResult (restoreEffect (exWorld\<lparr>restoredItem := Some exDoc2\<rparr>)) = Some exDoc2
   \<and> (\<exists>doc'. currentResult (triggerAutoGeneration exEnvOk EN [exItemA] exWorldA) = Some doc'
         \<and> details (hd (suggestions doc')) \<noteq> None)
   \<and> (\<exists>doc'. currentResult (autoGenEffect exEnvOk exWorldA) = Some doc'
         \<and> hd (suggestions doc') = exItemA\<lparr>details := Some exDetailsOld\<rparr>)"
proof -
  have b: "autoGenBatch exWorld = Some [exItemA, exItemB, exItemC, exItemD]"
    by (simp add: autoGenBatch_def exWorld_fields missingItems_def exDoc_fields exItem_fields)
  from C8_details_lifecycle [where w = exWorld and batch = "[exItemA, exItemB, exItemC, exItemD]"] b
  have 1: "details exItemA = None" by simp
  have p: "details (exItemA\<lparr>details := Some exDetailsOld\<rparr>) \<noteq> None" by simp
  from C8_details_lifecycle [where item = "exItemA\<lparr>details := Some exDetailsOld\<rparr>"
         and w = exWorldA and E = exEnvOk] p
  have 2: "trace (handleItemClick exEnvOk (exItemA\<lparr>details := Some exDetailsOld\<rparr>) exWorldA)
             = trace exWorldA"
    and 3: "currentResult (handleItemClick exEnvOk (exItemA\<lparr>details := Some exDetailsOld\<rparr>) exWorldA)
             = currentResult exWorldA"
    by blast+
  have u: "exDoc2 \<in> set [exDoc, exDoc2] \<and> id_result exDoc2 \<noteq> id_result exDocA"
    by (simp add: exDoc2_def exDocA_def exDoc_def)
  from C8_details_lifecycle [where p = exDoc2 and h = "[exDoc, exDoc2]" and r = exDocA] u
  have 4: "exDoc2 \<in> set (upsert exDocA [exDoc, exDoc2])" by blast
  have r: "restoredItem (exWorld\<lparr>restoredItem := Some exDoc2\<rparr>) = Some exDoc2" by simp
  from C8_details_lifecycle [where w = "exWorld\<lparr>restoredItem := Some exDoc2\<rparr>" and r = exDoc2] r
  have 5: "currentResult (restoreEffect (exWorld\<lparr>restoredItem := Some exDoc2\<rparr>)) = Some exDoc2"
    by blast
  have dist: "currentResult exWorldA = Some exDocA \<and> distinct (map id_item (suggestions exDocA))"
    by (simp add: exWorldA_fields exDocA_fields exItem_fields)
  note inst = C8_details_lifecycle [where w = exWorldA and doc = exDocA and E = exEnvOk
                 and lang = EN and items = "[exItemA]"]
  from inst exWorldA_fields(1) obtain doc1 where
    6: "currentResult (triggerAutoGeneration exEnvOk EN [exItemA] exWorldA) = Some doc1"
    and 7: "list_all2 (\<lambda>s s'. details s \<noteq> None \<longrightarrow> details s' \<noteq> None)
                (suggestions exDocA) (suggestions doc1)"
    by blast
  from inst dist obtain doc2 where
    8: "currentResult (autoGenEffect exEnvOk exWorldA) = Some doc2"
    and 9: "list_all2 (\<lambda>s s'. details s \<noteq> None \<longrightarrow> s' = s) (suggestions exDocA) (suggestions doc2)"
    by blast
  from 7 have 10: "details (hd (suggestions doc1)) \<noteq> None"
    by (auto simp: exDocA_fields list_all2_Cons1)
  from 9 have 11: "hd (suggestions doc2) = exItemA\<lparr>details := Some exDetailsOld\<rparr>"
    by (auto simp: exDocA_fields list_all2_Cons1)
  from 1 2 3 4 5 6 8 10 11 show ?thesis
    by (simp add: exWorldA_fields)
qed


end
